theory Spec2Isabelle
  imports Main "HOL-Library.Sublist"
begin

section \<open>Data model (types.ts)\<close>

text \<open>
  The interfaces of \<^verbatim>\<open>types.ts\<close>. An optional field \<^verbatim>\<open>f?: T\<close> is a field of type
  \<open>T option\<close>, \<open>None\<close> standing for \<^verbatim>\<open>undefined\<close>. Field names that are HOL constants or
  Isar keywords carry a suffix (\<open>id_msg\<close>, \<open>text_msg\<close>, \<open>image_msg\<close>, \<open>error_msg\<close>).
\<close>

datatype role = User | Agent

datatype status = Pending | Generating | Complete | Error

record message =
  id_msg :: string
  role :: role
  text_msg :: "string option"
  image_msg :: "string option"
  videoUrl :: "string option"
  status :: "status option"
  error_msg :: "string option"
  timestamp :: nat

datatype AspectRatio = Ratio_16_9 | Ratio_9_16

datatype Resolution = Res_720p | Res_1080p

record GenerationConfig =
  aspectRatio :: AspectRatio
  resolution :: Resolution

text \<open>
  \<^verbatim>\<open>mimeType\<close> is declared a string, but \<^verbatim>\<open>handleSendMessage\<close> passes \<^verbatim>\<open>mimeType!\<close>, which is
  \<^verbatim>\<open>null\<close> at run time when its argument is: the field is optional here.
\<close>

record request_image =
  data :: string
  mimeType :: "string option"

record GenerationRequest =
  prompt :: string
  image_req :: "request_image option"
  config :: GenerationConfig

fun aspectRatio_string :: "AspectRatio \<Rightarrow> string" where
  "aspectRatio_string Ratio_16_9 = ''16:9''"
| "aspectRatio_string Ratio_9_16 = ''9:16''"

fun resolution_string :: "Resolution \<Rightarrow> string" where
  "resolution_string Res_720p = ''720p''"
| "resolution_string Res_1080p = ''1080p''"

section \<open>The vendor SDK and the browser, as the service sees them\<close>

text \<open>
  Object literals handed to the SDK are association lists of field name and value, so
  that a field that is absent differs from a field that holds \<^verbatim>\<open>null\<close>.
\<close>

datatype js_value =
    JNull
  | JNumber nat
  | JString string
  | JObject "(string \<times> js_value) list"

text \<open>
  Modelled from the spec: the operation handle is an opaque vendor-provided token that
  carries a completion flag and an optional error payload. The declarations of the SDK
  are not among the sources; the records below hold this and the fields that
  \<^verbatim>\<open>generateVideo\<close> reads (\<^verbatim>\<open>error.message\<close>, \<^verbatim>\<open>response.generatedVideos[0].video.uri\<close>,
  and \<^verbatim>\<open>ok\<close>, \<^verbatim>\<open>statusText\<close> and \<^verbatim>\<open>blob()\<close> of a fetch response), each optional where the
  code tests for it.
\<close>

text \<open>What an external call throws: a value whose \<^verbatim>\<open>message\<close> property may be absent.\<close>

datatype thrown = Thrown (thrown_message: "string option")

text \<open>The \<^verbatim>\<open>error\<close> field of an operation: an object whose \<^verbatim>\<open>message\<close> may be absent.\<close>

datatype operation_error = OperationFailure (failure_message: "string option")

record video =
  uri :: "string option"

record generated_video =
  video :: "video option"

record videos_response =
  generatedVideos :: "generated_video list option"

text \<open>
  The operation handle. \<^verbatim>\<open>done\<close> is an optional boolean read only through \<^verbatim>\<open>!operation.done\<close>,
  so \<^verbatim>\<open>undefined\<close> and \<^verbatim>\<open>false\<close> are the one value \<open>False\<close>.
\<close>

record operation =
  name_op :: string
  done_op :: bool
  error_op :: "operation_error option"
  response_op :: "videos_response option"

record http_response =
  ok :: bool
  statusText :: string
  blob :: "thrown + string"

record genai =
  apiKey :: string

text \<open>
  Everything outside the program: the environment variable (the same value at each of
  its reads), the two SDK calls, \<^verbatim>\<open>fetch\<close> and \<^verbatim>\<open>URL.createObjectURL\<close>. A call either
  throws or returns. The answer to a status call may depend on how many status calls
  came before it (its \<open>nat\<close> argument) and on the handle that is sent.
\<close>

record world =
  API_KEY :: "string option"
  generateVideos :: "genai \<Rightarrow> js_value \<Rightarrow> thrown + operation"
  getVideosOperation :: "genai \<Rightarrow> nat \<Rightarrow> operation \<Rightarrow> thrown + operation"
  fetch :: "string \<Rightarrow> thrown + http_response"
  createObjectURL :: "string \<Rightarrow> string"

text \<open>
  The calls the service makes, in the order it makes them. Writing to the console is
  left out: nothing reads it.
\<close>

datatype effect =
    GenerateVideos js_value
  | Wait nat
  | GetVideosOperation operation
  | Fetch string
  | CreateObjectURL string

section \<open>Errors\<close>

text \<open>
  Every \<^verbatim>\<open>throw\<close> of \<^verbatim>\<open>generateVideo\<close> is a constructor; \<open>Rethrown\<close> is an exception of an
  external call that passes through the \<^verbatim>\<open>catch\<close> block unchanged, tagged with the call
  it came from.
\<close>

datatype call_site = InGenerateVideos | InGetVideosOperation | InFetch | InBlob

datatype error =
    ApiKeyNotFound
  | ServiceNotInitialized
  | OperationError operation_error
  | NoVideoReturned
  | VideoUriMissing
  | DownloadFailed string
  | Rethrown call_site thrown

text \<open>JavaScript's \<^verbatim>\<open>a || b\<close> on an optional string: \<^verbatim>\<open>undefined\<close> and \<^verbatim>\<open>''\<close> are falsy.\<close>

fun truthy :: "string option \<Rightarrow> bool" where
  "truthy None = False"
| "truthy (Some s) = (s \<noteq> [])"

definition or_else :: "string option \<Rightarrow> string \<Rightarrow> string" where
  "or_else a b = (case a of None \<Rightarrow> b | Some s \<Rightarrow> if s = [] then b else s)"

text \<open>The \<^verbatim>\<open>message\<close> property of the error that reaches the caller.\<close>

fun message_of :: "error \<Rightarrow> string option" where
  "message_of ApiKeyNotFound = Some ''API Key not found. Please select a key.''"
| "message_of ServiceNotInitialized = Some ''AI Service failed to initialize''"
| "message_of (OperationError e) =
     Some (or_else (failure_message e) ''Unknown error during video generation'')"
| "message_of NoVideoReturned = Some ''No video returned from the API.''"
| "message_of VideoUriMissing = Some ''Video URI is missing.''"
| "message_of (DownloadFailed s) = Some (''Failed to download video: '' @ s)"
| "message_of (Rethrown c t) = thrown_message t"

section \<open>GeminiService\<close>

record gemini_service =
  ai :: "genai option"

text \<open>Lines 21 to 28. An absent and an empty key are both falsy.\<close>

definition ensureInitialized :: "world \<Rightarrow> gemini_service \<Rightarrow> error + gemini_service" where
  "ensureInitialized w svc =
     (case API_KEY w of
        None \<Rightarrow> Inl ApiKeyNotFound
      | Some key \<Rightarrow>
          if key = [] then Inl ApiKeyNotFound
          else Inr (svc\<lparr>ai := Some \<lparr>apiKey = key\<rparr>\<rparr>))"

text \<open>Lines 40 to 69: the argument of \<^verbatim>\<open>generateVideos\<close>, one object literal per branch.\<close>

definition modelName :: string where
  "modelName = ''veo-3.1-fast-generate-preview''"

definition generateConfig :: "GenerationConfig \<Rightarrow> js_value" where
  "generateConfig c =
     JObject [(''numberOfVideos'', JNumber 1),
              (''resolution'', JString (resolution_string (resolution c))),
              (''aspectRatio'', JString (aspectRatio_string (aspectRatio c)))]"

definition js_string_or_null :: "string option \<Rightarrow> js_value" where
  "js_string_or_null s = (case s of None \<Rightarrow> JNull | Some x \<Rightarrow> JString x)"

definition generateVideos_payload :: "GenerationRequest \<Rightarrow> js_value" where
  "generateVideos_payload request =
     (case image_req request of
        Some img \<Rightarrow>
          JObject [(''model'', JString modelName),
                   (''prompt'', JString (prompt request)),
                   (''image'', JObject [(''imageBytes'', JString (data img)),
                                        (''mimeType'', js_string_or_null (mimeType img))]),
                   (''config'', generateConfig (config request))]
      | None \<Rightarrow>
          JObject [(''model'', JString modelName),
                   (''prompt'', JString (prompt request)),
                   (''config'', generateConfig (config request))])"

text \<open>
  Lines 74 to 83, the poll loop. It may run forever, so it is a partial function: \<open>None\<close>
  is the loop that never leaves. \<open>n\<close> counts the status calls made so far and \<open>tr\<close> is the
  trace of calls so far. The result is the error thrown inside the loop or the handle
  the loop ends with.
\<close>

partial_function (option) poll_loop ::
  "world \<Rightarrow> genai \<Rightarrow> nat \<Rightarrow> effect list \<Rightarrow> operation \<Rightarrow> ((error + operation) \<times> effect list) option"
where
  "poll_loop w c n tr operation =
     (if done_op operation then Some (Inr operation, tr)
      else
        (case getVideosOperation w c n operation of
           Inl t \<Rightarrow>
             Some (Inl (Rethrown InGetVideosOperation t),
                   tr @ [Wait 5000, GetVideosOperation operation])
         | Inr operation' \<Rightarrow>
             (case error_op operation' of
                Some e \<Rightarrow>
                  Some (Inl (OperationError e), tr @ [Wait 5000, GetVideosOperation operation])
              | None \<Rightarrow>
                  poll_loop w c (Suc n) (tr @ [Wait 5000, GetVideosOperation operation])
                    operation')))"

text \<open>Lines 103 to 106. A template literal prints \<^verbatim>\<open>undefined\<close> for an absent key.\<close>

definition template :: "string option \<Rightarrow> string" where
  "template s = (case s of None \<Rightarrow> ''undefined'' | Some x \<Rightarrow> x)"

definition downloadUrl :: "string option \<Rightarrow> string \<Rightarrow> string" where
  "downloadUrl key videoUri =
     (if CHR ''?'' \<in> set videoUri
      then videoUri @ ''&key='' @ template key
      else videoUri @ ''?key='' @ template key)"

text \<open>Lines 85 to 116: what follows the loop, for the handle the loop ended with.\<close>

definition first_video_uri :: "generated_video \<Rightarrow> string option" where
  "first_video_uri g = (case video g of None \<Rightarrow> None | Some v \<Rightarrow> uri v)"

definition extract_and_download ::
  "world \<Rightarrow> effect list \<Rightarrow> operation \<Rightarrow> (error + string) \<times> effect list" where
  "extract_and_download w tr operation =
     (case error_op operation of
        Some e \<Rightarrow> (Inl (OperationError e), tr)
      | None \<Rightarrow>
          (case (case response_op operation of None \<Rightarrow> None | Some r \<Rightarrow> generatedVideos r) of
             None \<Rightarrow> (Inl NoVideoReturned, tr)
           | Some [] \<Rightarrow> (Inl NoVideoReturned, tr)
           | Some (g # _) \<Rightarrow>
               (case first_video_uri g of
                  None \<Rightarrow> (Inl VideoUriMissing, tr)
                | Some videoUri \<Rightarrow>
                    if videoUri = [] then (Inl VideoUriMissing, tr)
                    else
                      (let url = downloadUrl (API_KEY w) videoUri in
                       case fetch w url of
                         Inl t \<Rightarrow> (Inl (Rethrown InFetch t), tr @ [Fetch url])
                       | Inr response \<Rightarrow>
                           if \<not> ok response
                           then (Inl (DownloadFailed (statusText response)), tr @ [Fetch url])
                           else
                             (case blob response of
                                Inl t \<Rightarrow> (Inl (Rethrown InBlob t), tr @ [Fetch url])
                              | Inr b \<Rightarrow>
                                  (Inr (createObjectURL w b),
                                   tr @ [Fetch url, CreateObjectURL b]))))))"

text \<open>
  Lines 30 to 122, \<^verbatim>\<open>generateVideo\<close>: the promise's outcome with the trace of external calls, \<open>None\<close> when
  the promise never settles. The \<^verbatim>\<open>catch\<close> block logs and rethrows, so every error
  passes through it unchanged. The service's \<^verbatim>\<open>ai\<close> field is overwritten by every call
  before it is read, so the updated service is not part of the result.
\<close>

definition generateVideo ::
  "world \<Rightarrow> gemini_service \<Rightarrow> GenerationRequest \<Rightarrow> ((error + string) \<times> effect list) option"
where
  "generateVideo w svc request =
     (case ensureInitialized w svc of
        Inl e \<Rightarrow> Some (Inl e, [])
      | Inr svc' \<Rightarrow>
          (case ai svc' of
             None \<Rightarrow> Some (Inl ServiceNotInitialized, [])
           | Some c \<Rightarrow>
               (case generateVideos w c (generateVideos_payload request) of
                  Inl t \<Rightarrow>
                    Some (Inl (Rethrown InGenerateVideos t),
                          [GenerateVideos (generateVideos_payload request)])
                | Inr operation \<Rightarrow>
                    (case poll_loop w c 0 [GenerateVideos (generateVideos_payload request)]
                            operation of
                       None \<Rightarrow> None
                     | Some (Inl e, tr) \<Rightarrow> Some (Inl e, tr)
                     | Some (Inr operation', tr) \<Rightarrow>
                         Some (extract_and_download w tr operation')))))"

section \<open>App (handleSendMessage and the key handlers)\<close>

record app_state =
  messages :: "message list"
  isProcessing :: bool
  apiKeySet :: bool

text \<open>
  \<^verbatim>\<open>Date.now()\<close> is read four times in one call of \<^verbatim>\<open>handleSendMessage\<close> (lines 64, 70, 73
  and 78); the four readings are an argument. It counts milliseconds since the epoch.
\<close>

record clock =
  now1 :: nat
  now2 :: nat
  now3 :: nat
  now4 :: nat

text \<open>
  \<^verbatim>\<open>Number.prototype.toString\<close> on a non-negative integer below \<open>10\<^sup>2\<^sup>1\<close>, as every clock
  reading is: its decimal digits.
\<close>

definition digit_char :: "nat \<Rightarrow> char" where
  "digit_char d = char_of (48 + d)"

function digits :: "nat \<Rightarrow> string" where
  "digits n = (if n < 10 then [digit_char n] else digits (n div 10) @ [digit_char (n mod 10)])"
  by pat_completeness auto
termination
  by (relation "measure (\<lambda>n. n)") auto

declare digits.simps [simp del]

definition toString :: "nat \<Rightarrow> string" where
  "toString n = digits n"

definition apostrophe :: char where
  "apostrophe = char_of (39 :: nat)"

definition newline :: char where
  "newline = char_of (10 :: nat)"

definition quote :: char where
  "quote = char_of (34 :: nat)"

definition welcome_text :: string where
  "welcome_text =
     ''Hello! I'' @ [apostrophe] @
     ''m your Veo video director. I can turn your text descriptions and images into stunning videos.'' @
     [newline, newline] @ ''Try describing a scene like '' @ [quote] @
     ''A futuristic cyberpunk city with neon lights raining'' @ [quote] @
     '' or upload an image to animate it!''"

definition welcome_message :: "nat \<Rightarrow> message" where
  "welcome_message t =
     \<lparr>id_msg = ''welcome'', role = Agent, text_msg = Some welcome_text, image_msg = None,
      videoUrl = None, status = None, error_msg = None, timestamp = t\<rparr>"

definition initial_state :: "nat \<Rightarrow> app_state" where
  "initial_state t = \<lparr>messages = [welcome_message t], isProcessing = False, apiKeySet = False\<rparr>"

text \<open>
  Lines 28 to 44. The argument is \<^verbatim>\<open>window.aistudio.hasSelectedApiKey\<close>: absent, throwing
  (the \<^verbatim>\<open>catch\<close> only logs) or answering.
\<close>

definition checkApiKey :: "(thrown + bool) option \<Rightarrow> string option \<Rightarrow> app_state \<Rightarrow> app_state" where
  "checkApiKey aistudio key st =
     (case aistudio of
        Some (Inr hasKey) \<Rightarrow> st\<lparr>apiKeySet := hasKey\<rparr>
      | Some (Inl t) \<Rightarrow> st
      | None \<Rightarrow> if truthy key then st\<lparr>apiKeySet := True\<rparr> else st)"

text \<open>
  Lines 46 to 52. The argument says whether \<^verbatim>\<open>window.aistudio.openSelectKey\<close> exists (and
  returns: when it throws, the flag is not touched, as when it does not exist).
\<close>

definition handleSelectKey :: "bool \<Rightarrow> app_state \<Rightarrow> app_state" where
  "handleSelectKey available st = (if available then st\<lparr>apiKeySet := True\<rparr> else st)"

text \<open>\<^verbatim>\<open>String.prototype.includes\<close>.\<close>

fun includes_str :: "string \<Rightarrow> string \<Rightarrow> bool" where
  "includes_str [] pat = (pat = [])"
| "includes_str (x # xs) pat = (prefix pat (x # xs) \<or> includes_str xs pat)"

text \<open>Lines 64 to 79.\<close>

definition userMessageId :: "clock \<Rightarrow> string" where
  "userMessageId clk = toString (now1 clk)"

definition agentMessageId :: "clock \<Rightarrow> string" where
  "agentMessageId clk = toString (now3 clk + 1)"

definition newUserMessage :: "clock \<Rightarrow> string \<Rightarrow> string option \<Rightarrow> message" where
  "newUserMessage clk txt imageBase64 =
     \<lparr>id_msg = userMessageId clk, role = User, text_msg = Some txt,
      image_msg = (if truthy imageBase64 then imageBase64 else None),
      videoUrl = None, status = None, error_msg = None, timestamp = now2 clk\<rparr>"

definition newAgentMessage :: "clock \<Rightarrow> message" where
  "newAgentMessage clk =
     \<lparr>id_msg = agentMessageId clk, role = Agent, text_msg = None, image_msg = None,
      videoUrl = None, status = Some Generating, error_msg = None, timestamp = now4 clk\<rparr>"

text \<open>Lines 85 to 89: the argument of \<^verbatim>\<open>generateVideo\<close>.\<close>

definition request_of :: "string \<Rightarrow> string option \<Rightarrow> string option \<Rightarrow> GenerationConfig \<Rightarrow> GenerationRequest" where
  "request_of txt imageBase64 mime cfg =
     \<lparr>prompt = txt,
      image_req =
        (case imageBase64 of
           None \<Rightarrow> None
         | Some b \<Rightarrow> if b = [] then None else Some \<lparr>data = b, mimeType = mime\<rparr>),
      config = cfg\<rparr>"

text \<open>
  Lines 60 to 82, the part of \<^verbatim>\<open>handleSendMessage\<close> that runs before the \<^verbatim>\<open>await\<close>.
  Nothing happens when the key is not set.
\<close>

definition handleSendMessage_submit :: "clock \<Rightarrow> string \<Rightarrow> string option \<Rightarrow> app_state \<Rightarrow> app_state" where
  "handleSendMessage_submit clk txt imageBase64 st =
     (if \<not> apiKeySet st then st
      else st\<lparr>messages := messages st @ [newUserMessage clk txt imageBase64, newAgentMessage clk],
              isProcessing := True\<rparr>)"

text \<open>Lines 91 to 101 and 111 to 120: the two functions mapped over the list.\<close>

definition complete_message :: "string \<Rightarrow> string \<Rightarrow> message \<Rightarrow> message" where
  "complete_message agentId url msg =
     (if id_msg msg = agentId
      then msg\<lparr>status := Some Complete, text_msg := Some ''Here is your generated video!'',
               videoUrl := Some url\<rparr>
      else msg)"

definition fail_message :: "string \<Rightarrow> error \<Rightarrow> message \<Rightarrow> message" where
  "fail_message agentId e msg =
     (if id_msg msg = agentId
      then msg\<lparr>status := Some Error,
               error_msg := Some (or_else (message_of e)
                                    ''Something went wrong while generating the video.'')\<rparr>
      else msg)"

text \<open>Line 107, the test that an error is about the API key.\<close>

definition is_key_error :: "string option \<Rightarrow> bool" where
  "is_key_error m =
     (case m of
        None \<Rightarrow> False
      | Some s \<Rightarrow>
          s \<noteq> [] \<and> (includes_str s ''Requested entity was not found'' \<or> includes_str s ''API key not valid''))"

text \<open>
  Lines 91 to 123, the part of \<^verbatim>\<open>handleSendMessage\<close> that runs once \<^verbatim>\<open>generateVideo\<close> has
  settled: the rest of the \<^verbatim>\<open>try\<close> block or the \<^verbatim>\<open>catch\<close> block, then \<^verbatim>\<open>finally\<close>.
\<close>

definition handleSendMessage_settle :: "string \<Rightarrow> error + string \<Rightarrow> app_state \<Rightarrow> app_state" where
  "handleSendMessage_settle agentId outcome st =
     (case outcome of
        Inr url \<Rightarrow>
          st\<lparr>messages := map (complete_message agentId url) (messages st),
             isProcessing := False\<rparr>
      | Inl e \<Rightarrow>
          st\<lparr>apiKeySet := (if is_key_error (message_of e) then False else apiKeySet st),
             messages := map (fail_message agentId e) (messages st),
             isProcessing := False\<rparr>)"

text \<open>
  One call of \<^verbatim>\<open>handleSendMessage\<close> with nothing else happening in between. When
  \<^verbatim>\<open>generateVideo\<close> never settles the call stays at its \<^verbatim>\<open>await\<close>.
\<close>

definition handleSendMessage ::
  "world \<Rightarrow> gemini_service \<Rightarrow> clock \<Rightarrow> string \<Rightarrow> string option \<Rightarrow> string option \<Rightarrow>
   GenerationConfig \<Rightarrow> app_state \<Rightarrow> app_state"
where
  "handleSendMessage w svc clk txt imageBase64 mime cfg st =
     (if \<not> apiKeySet st then st
      else
        (case generateVideo w svc (request_of txt imageBase64 mime cfg) of
           None \<Rightarrow> handleSendMessage_submit clk txt imageBase64 st
         | Some (outcome, tr) \<Rightarrow>
             handleSendMessage_settle (agentMessageId clk) outcome
               (handleSendMessage_submit clk txt imageBase64 st)))"

text \<open>Line 126: the key prompt is rendered instead of the chat.\<close>

definition shows_key_prompt :: "app_state \<Rightarrow> bool" where
  "shows_key_prompt st = (\<not> apiKeySet st)"

text \<open>
  A session is a sequence of events, each a state update of the component. A submission
  and its settling are two events, so that other events may come in between.
\<close>

datatype event =
    KeyChecked "(thrown + bool) option" "string option"
  | KeySelected bool
  | Submitted clock string "string option"
  | Settled string "error + string"

fun step :: "event \<Rightarrow> app_state \<Rightarrow> app_state" where
  "step (KeyChecked aistudio key) st = checkApiKey aistudio key st"
| "step (KeySelected available) st = handleSelectKey available st"
| "step (Submitted clk txt imageBase64) st = handleSendMessage_submit clk txt imageBase64 st"
| "step (Settled agentId outcome) st = handleSendMessage_settle agentId outcome st"

fun run :: "event list \<Rightarrow> app_state \<Rightarrow> app_state" where
  "run [] st = st"
| "run (e # es) st = run es (step e st)"

section \<open>Vocabulary of the properties\<close>

subsection \<open>Iterations of the poll loop\<close>

text \<open>
  \<open>polled w c n operation k\<close> is the handle the loop holds at its head after \<open>k\<close> full
  iterations, started with \<open>operation\<close> when \<open>n\<close> status calls had been made: each of the
  \<open>k\<close> iterations found the handle not done, and its status call returned a handle
  without an error field, which became the next handle. It is \<open>None\<close> when the loop
  makes fewer than \<open>k\<close> full iterations.
\<close>

fun polled :: "world \<Rightarrow> genai \<Rightarrow> nat \<Rightarrow> operation \<Rightarrow> nat \<Rightarrow> operation option" where
  "polled w c n operation 0 = Some operation"
| "polled w c n operation (Suc k) =
     (if done_op operation then None
      else
        (case getVideosOperation w c n operation of
           Inl t \<Rightarrow> None
         | Inr operation' \<Rightarrow>
             (case error_op operation' of
                Some e \<Rightarrow> None
              | None \<Rightarrow> polled w c (Suc n) operation' k)))"

text \<open>The calls of the first \<open>k\<close> iterations: a wait, then the status call with the handle.\<close>

fun poll_trace :: "world \<Rightarrow> genai \<Rightarrow> nat \<Rightarrow> operation \<Rightarrow> nat \<Rightarrow> effect list" where
  "poll_trace w c n operation 0 = []"
| "poll_trace w c n operation (Suc k) =
     [Wait 5000, GetVideosOperation operation] @
     (case getVideosOperation w c n operation of
        Inl t \<Rightarrow> []
      | Inr operation' \<Rightarrow> poll_trace w c (Suc n) operation' k)"

text \<open>
  How the loop leaves at its head with \<open>operation\<close>, if it does: the handle is done, or
  the status call throws, or its answer carries an error field.
\<close>

definition loop_exit :: "world \<Rightarrow> genai \<Rightarrow> nat \<Rightarrow> operation \<Rightarrow> (error + operation) option" where
  "loop_exit w c n operation =
     (if done_op operation then Some (Inr operation)
      else
        (case getVideosOperation w c n operation of
           Inl t \<Rightarrow> Some (Inl (Rethrown InGetVideosOperation t))
         | Inr operation' \<Rightarrow>
             (case error_op operation' of
                Some e \<Rightarrow> Some (Inl (OperationError e))
              | None \<Rightarrow> None)))"

definition ends_after ::
  "world \<Rightarrow> genai \<Rightarrow> nat \<Rightarrow> effect list \<Rightarrow> operation \<Rightarrow> (error + operation) \<times> effect list \<Rightarrow> bool"
where
  "ends_after w c n tr operation y =
     (\<exists>k operation'. polled w c n operation k = Some operation' \<and>
        loop_exit w c (n + k) operation' = Some (fst y) \<and>
        snd y = tr @ poll_trace w c n operation (if done_op operation' then k else Suc k))"

text \<open>The vendor ends the polling: some iteration leaves the loop.\<close>

definition polling_ends :: "world \<Rightarrow> genai \<Rightarrow> operation \<Rightarrow> bool" where
  "polling_ends w c operation0 =
     (\<exists>k operation. polled w c 0 operation0 k = Some operation \<and> loop_exit w c k operation \<noteq> None)"

fun is_status_call :: "effect \<Rightarrow> bool" where
  "is_status_call (GetVideosOperation operation) = True"
| "is_status_call x = False"

fun is_fetch :: "effect \<Rightarrow> bool" where
  "is_fetch (Fetch url) = True"
| "is_fetch x = False"

subsection \<open>Failure kinds of the contract\<close>

text \<open>
  The four kinds of failure the contract of the generation client names, and the kind of
  each error: of those the service throws itself, and of an exception of the download.
  An exception of one of the two SDK calls has whatever kind the SDK gave it.
\<close>

datatype failure_kind = AuthError | RemoteOperationError | NetworkError | MissingPayloadError

fun kind_of :: "error \<Rightarrow> failure_kind option" where
  "kind_of ApiKeyNotFound = Some AuthError"
| "kind_of ServiceNotInitialized = None"
| "kind_of (OperationError e) = Some RemoteOperationError"
| "kind_of NoVideoReturned = Some MissingPayloadError"
| "kind_of VideoUriMissing = Some MissingPayloadError"
| "kind_of (DownloadFailed s) = Some NetworkError"
| "kind_of (Rethrown InFetch t) = Some NetworkError"
| "kind_of (Rethrown InBlob t) = Some NetworkError"
| "kind_of (Rethrown InGenerateVideos t) = None"
| "kind_of (Rethrown InGetVideosOperation t) = None"


subsection \<open>Fields of an object literal, parts of a URL\<close>

fun fields :: "js_value \<Rightarrow> (string \<times> js_value) list" where
  "fields (JObject fs) = fs"
| "fields v = []"

definition field :: "string \<Rightarrow> js_value \<Rightarrow> js_value option" where
  "field k v = map_of (fields v) k"

definition without_field :: "string \<Rightarrow> js_value \<Rightarrow> js_value" where
  "without_field k v = JObject (filter (\<lambda>kv. fst kv \<noteq> k) (fields v))"

text \<open>A URL up to its first question mark, and what follows it.\<close>

definition url_path :: "string \<Rightarrow> string" where
  "url_path u = takeWhile (\<lambda>x. x \<noteq> CHR ''?'') u"

definition url_query :: "string \<Rightarrow> string option" where
  "url_query u = (if CHR ''?'' \<in> set u then Some (tl (dropWhile (\<lambda>x. x \<noteq> CHR ''?'') u)) else None)"

subsection \<open>Conditions on the vendor's answers\<close>


text \<open>
  The handle has no video to download: no response, no list, an empty list, or a first
  entry without a URI (an empty URI is falsy as well).
\<close>

definition payload_missing :: "operation \<Rightarrow> bool" where
  "payload_missing operation =
     (case response_op operation of
        None \<Rightarrow> True
      | Some r \<Rightarrow>
          (case generatedVideos r of
             None \<Rightarrow> True
           | Some [] \<Rightarrow> True
           | Some (g # gs) \<Rightarrow> \<not> truthy (first_video_uri g)))"

text \<open>
  The URI that lines 91 to 99 find in a handle, if they find one: the URI of the first
  generated video, when it is there and not empty.
\<close>

definition video_uri_of :: "operation \<Rightarrow> string option" where
  "video_uri_of operation =
     (case response_op operation of
        None \<Rightarrow> None
      | Some r \<Rightarrow>
          (case generatedVideos r of
             None \<Rightarrow> None
           | Some [] \<Rightarrow> None
           | Some (g # gs) \<Rightarrow>
               (case first_video_uri g of
                  None \<Rightarrow> None
                | Some u \<Rightarrow> if u = [] then None else Some u)))"

text \<open>
  The run has an API key and its submission returned a handle, and after \<open>k\<close> full
  iterations of the poll loop the handle is \<open>h\<close>.
\<close>

definition reaches :: "world \<Rightarrow> GenerationRequest \<Rightarrow> string \<Rightarrow> nat \<Rightarrow> operation \<Rightarrow> bool" where
  "reaches w request key k h =
     (API_KEY w = Some key \<and> key \<noteq> [] \<and>
      (case generateVideos w \<lparr>apiKey = key\<rparr> (generateVideos_payload request) of
         Inl t \<Rightarrow> False
       | Inr operation0 \<Rightarrow> polled w \<lparr>apiKey = key\<rparr> 0 operation0 k = Some h))"

text \<open>
  Why \<^verbatim>\<open>generateVideo\<close> fails with an error: for each error, what the run met.
\<close>

fun failure_cause :: "world \<Rightarrow> GenerationRequest \<Rightarrow> error \<Rightarrow> bool" where
  "failure_cause w request ApiKeyNotFound = (\<not> truthy (API_KEY w))"
| "failure_cause w request ServiceNotInitialized = False"
| "failure_cause w request (OperationError x) =
     (\<exists>key k h. reaches w request key k h \<and>
        (if done_op h then error_op h = Some x
         else \<exists>h'. getVideosOperation w \<lparr>apiKey = key\<rparr> k h = Inr h' \<and> error_op h' = Some x))"
| "failure_cause w request NoVideoReturned =
     (\<exists>key k h. reaches w request key k h \<and> done_op h \<and> error_op h = None \<and>
        (case response_op h of
           None \<Rightarrow> True
         | Some r \<Rightarrow> generatedVideos r = None \<or> generatedVideos r = Some []))"
| "failure_cause w request VideoUriMissing =
     (\<exists>key k h r g gs. reaches w request key k h \<and> done_op h \<and> error_op h = None \<and>
        response_op h = Some r \<and> generatedVideos r = Some (g # gs) \<and>
        \<not> truthy (first_video_uri g))"
| "failure_cause w request (DownloadFailed s) =
     (\<exists>key k h u response. reaches w request key k h \<and> done_op h \<and> error_op h = None \<and>
        video_uri_of h = Some u \<and> fetch w (downloadUrl (Some key) u) = Inr response \<and>
        \<not> ok response \<and> s = statusText response)"
| "failure_cause w request (Rethrown InGenerateVideos t) =
     (\<exists>key. API_KEY w = Some key \<and> key \<noteq> [] \<and>
        generateVideos w \<lparr>apiKey = key\<rparr> (generateVideos_payload request) = Inl t)"
| "failure_cause w request (Rethrown InGetVideosOperation t) =
     (\<exists>key k h. reaches w request key k h \<and> \<not> done_op h \<and>
        getVideosOperation w \<lparr>apiKey = key\<rparr> k h = Inl t)"
| "failure_cause w request (Rethrown InFetch t) =
     (\<exists>key k h u. reaches w request key k h \<and> done_op h \<and> error_op h = None \<and>
        video_uri_of h = Some u \<and> fetch w (downloadUrl (Some key) u) = Inl t)"
| "failure_cause w request (Rethrown InBlob t) =
     (\<exists>key k h u response. reaches w request key k h \<and> done_op h \<and> error_op h = None \<and>
        video_uri_of h = Some u \<and> fetch w (downloadUrl (Some key) u) = Inr response \<and>
        ok response \<and> blob response = Inl t)"

subsection \<open>Reading decimal digits, entries of the message list\<close>



text \<open>Two messages are the same entry: all that no update touches is equal.\<close>

definition same_entry :: "message \<Rightarrow> message \<Rightarrow> bool" where
  "same_entry m m' =
     (id_msg m = id_msg m' \<and> role m = role m' \<and> image_msg m = image_msg m' \<and>
      timestamp m = timestamp m')"

text \<open>
  Every id in the list is the id of the welcome message or was made from a number below
  \<open>t\<close>: all ids so far come from clock readings before \<open>t\<close>.
\<close>

definition ids_before :: "nat \<Rightarrow> message list \<Rightarrow> bool" where
  "ids_before t ms =
     (\<forall>m\<in>set ms. id_msg m = ''welcome'' \<or> (\<exists>n<t. id_msg m = toString n))"

definition known_status :: "message \<Rightarrow> bool" where
  "known_status m =
     (status m = None \<or> status m = Some Generating \<or> status m = Some Complete \<or>
      status m = Some Error)"

text \<open>
  What a settling with the placeholder id \<open>agentId\<close> makes of a message, and what an
  event makes of a message that is in the list: only a settling with the id of the
  message changes it.
\<close>

definition settled_update :: "string \<Rightarrow> error + string \<Rightarrow> message \<Rightarrow> message" where
  "settled_update agentId outcome m =
     (if id_msg m \<noteq> agentId then m
      else
        (case outcome of
           Inr url \<Rightarrow>
             m\<lparr>status := Some Complete, text_msg := Some ''Here is your generated video!'',
               videoUrl := Some url\<rparr>
         | Inl e \<Rightarrow>
             m\<lparr>status := Some Error,
               error_msg := Some (or_else (message_of e)
                                    ''Something went wrong while generating the video.'')\<rparr>))"

fun event_update :: "event \<Rightarrow> message \<Rightarrow> message" where
  "event_update (Settled agentId outcome) m = settled_update agentId outcome m"
| "event_update ev m = m"

section \<open>Example runs\<close>

text \<open>
  The scenario of the specification: the prompt \<^verbatim>\<open>a calm lake at sunset\<close>, no image, 16:9
  and 720p; the vendor answers the status calls from a script and, when the script is
  over, with a handle that is not done.
\<close>

definition lake_request :: GenerationRequest where
  "lake_request =
     \<lparr>prompt = ''a calm lake at sunset'', image_req = None,
      config = \<lparr>aspectRatio = Ratio_16_9, resolution = Res_720p\<rparr>\<rparr>"

definition pending_operation :: operation where
  "pending_operation =
     \<lparr>name_op = ''operations/lake'', done_op = False, error_op = None, response_op = None\<rparr>"

definition finished_operation :: "generated_video list \<Rightarrow> operation" where
  "finished_operation vs =
     \<lparr>name_op = ''operations/lake'', done_op = True, error_op = None,
      response_op = Some \<lparr>generatedVideos = Some vs\<rparr>\<rparr>"

definition failed_operation :: "string \<Rightarrow> operation" where
  "failed_operation m =
     \<lparr>name_op = ''operations/lake'', done_op = False,
      error_op = Some (OperationFailure (Some m)), response_op = None\<rparr>"

definition video_at :: "string \<Rightarrow> generated_video" where
  "video_at u = \<lparr>video = Some \<lparr>uri = Some u\<rparr>\<rparr>"

definition scripted_world :: "operation list \<Rightarrow> world" where
  "scripted_world answers =
     \<lparr>API_KEY = Some ''KEY'',
      generateVideos = (\<lambda>c payload. Inr pending_operation),
      getVideosOperation =
        (\<lambda>c n operation. Inr (if n < length answers then answers ! n else pending_operation)),
      fetch = (\<lambda>url. Inr \<lparr>ok = True, statusText = ''OK'', blob = Inr ''mp4''\<rparr>),
      createObjectURL = (\<lambda>b. ''blob:'' @ b)\<rparr>"

definition lake_world :: world where
  "lake_world =
     scripted_world [pending_operation, finished_operation [video_at ''https://videos.example/lake'']]"

definition fresh_service :: gemini_service where
  "fresh_service = \<lparr>ai = None\<rparr>"

definition lake_clock :: clock where
  "lake_clock = \<lparr>now1 = 1000, now2 = 1000, now3 = 1000, now4 = 1000\<rparr>"

definition ready_state :: app_state where
  "ready_state = handleSelectKey True (initial_state 0)"

text \<open>A vendor whose submission call throws an error with the given message.\<close>

definition throwing_world :: "string \<Rightarrow> world" where
  "throwing_world m = (scripted_world [])\<lparr>generateVideos := (\<lambda>c payload. Inl (Thrown (Some m)))\<rparr>"


text \<open>A vendor that reports the operation done at the third status call.\<close>

definition slow_world :: world where
  "slow_world =
     scripted_world [pending_operation, pending_operation,
                     finished_operation [video_at ''https://videos.example/lake'']]"

section \<open>The poll loop\<close>

lemma poll_loop_polled:
  "polled w c n operation k = Some operation' \<Longrightarrow>
   poll_loop w c n tr operation = poll_loop w c (n + k) (tr @ poll_trace w c n operation k) operation'"
proof (induction k arbitrary: n tr operation)
  case 0
  then show ?case by simp
next
  case (Suc k)
  from Suc.prems obtain op1 where
    nd: "\<not> done_op operation" and
    r: "getVideosOperation w c n operation = Inr op1" and
    e: "error_op op1 = None" and
    p: "polled w c (Suc n) op1 k = Some operation'"
    by (auto split: if_splits sum.splits option.splits)
  have "poll_loop w c n tr operation =
        poll_loop w c (Suc n) (tr @ [Wait 5000, GetVideosOperation operation]) op1"
    using nd r e by (subst poll_loop.simps) simp
  also have "\<dots> = poll_loop w c (Suc n + k)
        ((tr @ [Wait 5000, GetVideosOperation operation]) @ poll_trace w c (Suc n) op1 k) operation'"
    by (rule Suc.IH [OF p])
  finally show ?case using r by simp
qed

lemma polled_snoc:
  "polled w c n operation (Suc k) =
     (case polled w c n operation k of
        None \<Rightarrow> None
      | Some operation' \<Rightarrow>
          (case loop_exit w c (n + k) operation' of None \<Rightarrow>
              (case getVideosOperation w c (n + k) operation' of Inr x \<Rightarrow> Some x | Inl t \<Rightarrow> None)
           | Some r \<Rightarrow> None))"
proof (induction k arbitrary: n operation)
  case 0
  show ?case by (simp add: loop_exit_def split: sum.splits option.splits)
next
  case (Suc k)
  show ?case
  proof (cases "loop_exit w c n operation")
    case (Some r)
    then have "polled w c n operation (Suc j) = None" for j
      by (auto simp: loop_exit_def split: sum.splits option.splits if_splits)
    then show ?thesis by simp
  next
    case None
    then obtain op1 where
      nd: "\<not> done_op operation" and
      r: "getVideosOperation w c n operation = Inr op1" and
      e: "error_op op1 = None"
      by (auto simp: loop_exit_def split: sum.splits option.splits if_splits)
    have step: "polled w c n operation (Suc j) = polled w c (Suc n) op1 j" for j
      using nd r e by simp
    show ?thesis
      unfolding step Suc.IH [of "Suc n" op1] add_Suc add_Suc_right ..
  qed
qed

lemma poll_trace_snoc:
  "polled w c n operation k = Some operation' \<Longrightarrow>
   poll_trace w c n operation (Suc k) =
   poll_trace w c n operation k @ [Wait 5000, GetVideosOperation operation']"
proof (induction k arbitrary: n operation)
  case 0
  then show ?case by (simp split: sum.splits)
next
  case (Suc k)
  from Suc.prems obtain op1 where
    r: "getVideosOperation w c n operation = Inr op1" and
    p: "polled w c (Suc n) op1 k = Some operation'"
    by (auto split: if_splits sum.splits option.splits)
  have "poll_trace w c n operation (Suc (Suc k)) =
        [Wait 5000, GetVideosOperation operation] @ poll_trace w c (Suc n) op1 (Suc k)"
    using r by (subst poll_trace.simps(2)) simp
  also have "\<dots> = [Wait 5000, GetVideosOperation operation] @ poll_trace w c (Suc n) op1 k @
        [Wait 5000, GetVideosOperation operation']"
    using Suc.IH [OF p] by simp
  also have "\<dots> = poll_trace w c n operation (Suc k) @ [Wait 5000, GetVideosOperation operation']"
    using r by simp
  finally show ?case .
qed

lemma poll_loop_exit:
  assumes "polled w c n operation k = Some operation'"
    and "loop_exit w c (n + k) operation' = Some r"
  shows "poll_loop w c n tr operation =
         Some (r, tr @ poll_trace w c n operation (if done_op operation' then k else Suc k))"
proof -
  have "poll_loop w c (n + k) (tr @ poll_trace w c n operation k) operation' =
        Some (r, (tr @ poll_trace w c n operation k) @
                 (if done_op operation' then [] else [Wait 5000, GetVideosOperation operation']))"
    using assms(2)
    by (subst poll_loop.simps) (auto simp: loop_exit_def split: sum.splits option.splits if_splits)
  then show ?thesis
    using poll_loop_polled [OF assms(1), of tr] poll_trace_snoc [OF assms(1)] by simp
qed

lemma poll_loop_Some:
  assumes "poll_loop w c n tr operation = Some y"
  shows "ends_after w c n tr operation y"
proof (rule poll_loop.raw_induct [where P = ends_after, OF _ assms])
  fix f w c n tr operation y
  assume IH: "\<And>w c n tr operation y. f w c n tr operation = Some y \<Longrightarrow> ends_after w c n tr operation y"
  assume body: "(if done_op operation then Some (Inr operation, tr)
      else
        (case getVideosOperation w c n operation of
           Inl t \<Rightarrow>
             Some (Inl (Rethrown InGetVideosOperation t),
                   tr @ [Wait 5000, GetVideosOperation operation])
         | Inr operation' \<Rightarrow>
             (case error_op operation' of
                None \<Rightarrow>
                  f w c (Suc n) (tr @ [Wait 5000, GetVideosOperation operation])
                    operation'
              | Some e \<Rightarrow>
                  Some (Inl (OperationError e), tr @ [Wait 5000, GetVideosOperation operation])
              ))) = Some y"
  show "ends_after w c n tr operation y"
  proof (cases "loop_exit w c n operation")
    case (Some r)
    have "polled w c n operation 0 = Some operation" by simp
    moreover have "loop_exit w c (n + 0) operation = Some (fst y)"
      using Some body by (auto simp: loop_exit_def split: sum.splits option.splits if_splits)
    moreover have "snd y = tr @ poll_trace w c n operation (if done_op operation then 0 else Suc 0)"
      using Some body by (auto simp: loop_exit_def split: sum.splits option.splits if_splits)
    ultimately show ?thesis unfolding ends_after_def by blast
  next
    case None
    then obtain op1 where
      nd: "\<not> done_op operation" and
      r: "getVideosOperation w c n operation = Inr op1" and
      e: "error_op op1 = None"
      by (auto simp: loop_exit_def split: sum.splits option.splits if_splits)
    have "f w c (Suc n) (tr @ [Wait 5000, GetVideosOperation operation]) op1 = Some y"
      using body nd r e by simp
    from IH [OF this] obtain k operation' where
      p: "polled w c (Suc n) op1 k = Some operation'" and
      x: "loop_exit w c (Suc n + k) operation' = Some (fst y)" and
      t: "snd y = (tr @ [Wait 5000, GetVideosOperation operation]) @
            poll_trace w c (Suc n) op1 (if done_op operation' then k else Suc k)"
      unfolding ends_after_def by blast
    have "polled w c n operation (Suc k) = Some operation'"
      using nd r e p by simp
    moreover have "loop_exit w c (n + Suc k) operation' = Some (fst y)"
      using x by simp
    moreover have "snd y = tr @ poll_trace w c n operation (if done_op operation' then Suc k else Suc (Suc k))"
      using t r by (simp del: poll_trace.simps add: poll_trace.simps(2) [of w c n operation])
    ultimately show ?thesis unfolding ends_after_def by blast
  qed
qed

lemma poll_loop_iff:
  "poll_loop w c n tr operation = Some y \<longleftrightarrow> ends_after w c n tr operation y"
proof
  assume "poll_loop w c n tr operation = Some y"
  then show "ends_after w c n tr operation y" by (rule poll_loop_Some)
next
  assume "ends_after w c n tr operation y"
  then obtain k operation' where
    p: "polled w c n operation k = Some operation'" and
    x: "loop_exit w c (n + k) operation' = Some (fst y)" and
    t: "snd y = tr @ poll_trace w c n operation (if done_op operation' then k else Suc k)"
    unfolding ends_after_def by blast
  have "poll_loop w c n tr operation = Some (fst y, snd y)"
    unfolding t by (rule poll_loop_exit [OF p x])
  then show "poll_loop w c n tr operation = Some y" by simp
qed

lemma poll_loop_None_iff:
  "poll_loop w c n tr operation = None \<longleftrightarrow>
   (\<forall>k operation'. polled w c n operation k = Some operation' \<longrightarrow>
      loop_exit w c (n + k) operation' = None)"
proof
  assume none: "poll_loop w c n tr operation = None"
  show "\<forall>k operation'. polled w c n operation k = Some operation' \<longrightarrow>
      loop_exit w c (n + k) operation' = None"
  proof (intro allI impI)
    fix k operation'
    assume p: "polled w c n operation k = Some operation'"
    show "loop_exit w c (n + k) operation' = None"
    proof (cases "loop_exit w c (n + k) operation'")
      case None
      then show ?thesis .
    next
      case (Some r)
      from poll_loop_exit [OF p Some, of tr] none show ?thesis by simp
    qed
  qed
next
  assume all: "\<forall>k operation'. polled w c n operation k = Some operation' \<longrightarrow>
      loop_exit w c (n + k) operation' = None"
  show "poll_loop w c n tr operation = None"
  proof (cases "poll_loop w c n tr operation")
    case None
    then show ?thesis .
  next
    case (Some y)
    then have "ends_after w c n tr operation y" by (rule poll_loop_Some)
    then show ?thesis using all unfolding ends_after_def by fastforce
  qed
qed

lemma poll_trace_status_calls:
  "polled w c n operation k = Some operation' \<Longrightarrow>
   length (filter is_status_call (poll_trace w c n operation k)) = k"
proof (induction k arbitrary: operation')
  case 0
  show ?case by simp
next
  case (Suc k)
  from Suc.prems obtain h where h: "polled w c n operation k = Some h"
    by (auto simp: polled_snoc simp del: polled.simps split: option.splits)
  show ?case
    unfolding poll_trace_snoc [OF h] using Suc.IH [OF h] by simp
qed

lemma poll_trace_length:
  "polled w c n operation k = Some operation' \<Longrightarrow>
   length (poll_trace w c n operation k) = 2 * k"
proof (induction k arbitrary: operation')
  case 0
  show ?case by simp
next
  case (Suc k)
  from Suc.prems obtain h where h: "polled w c n operation k = Some h"
    by (auto simp: polled_snoc simp del: polled.simps split: option.splits)
  show ?case
    unfolding poll_trace_snoc [OF h] using Suc.IH [OF h] by simp
qed

lemma poll_trace_no_fetch:
  "filter is_fetch (poll_trace w c n operation k) = []"
  by (induction k arbitrary: n operation) (auto split: sum.splits)

lemma poll_trace_Suc_facts:
  assumes "polled w c n operation0 k = Some operation"
  shows "length (filter is_status_call (poll_trace w c n operation0 (Suc k))) = Suc k"
    and "last (poll_trace w c n operation0 (Suc k)) = GetVideosOperation operation"
  using poll_trace_status_calls [OF assms]
  by (simp_all add: poll_trace_snoc [OF assms] del: poll_trace.simps)

lemma polled_earlier:
  "polled w c n operation k = Some operation' \<Longrightarrow> j \<le> k \<Longrightarrow>
   \<exists>h. polled w c n operation j = Some h"
proof (induction k arbitrary: operation')
  case 0
  then show ?case by simp
next
  case (Suc k)
  from Suc.prems(1) obtain h where h: "polled w c n operation k = Some h"
    by (auto simp: polled_snoc simp del: polled.simps split: option.splits)
  show ?case
  proof (cases "j = Suc k")
    case True
    then show ?thesis using Suc.prems(1) by blast
  next
    case False
    then have "j \<le> k" using Suc.prems(2) by simp
    then show ?thesis using Suc.IH [OF h] by blast
  qed
qed

lemma polled_step:
  assumes "polled w c n operation (Suc k) = Some operation'"
  shows "\<exists>h. polled w c n operation k = Some h \<and> \<not> done_op h \<and>
           getVideosOperation w c (n + k) h = Inr operation' \<and> error_op operation' = None"
  using assms
  by (auto simp: polled_snoc loop_exit_def simp del: polled.simps
           split: option.splits sum.splits if_splits)


section \<open>Outcomes of generateVideo\<close>

lemma generateVideo_no_key:
  "\<not> truthy (API_KEY w) \<Longrightarrow> generateVideo w svc request = Some (Inl ApiKeyNotFound, [])"
  by (cases "API_KEY w") (simp_all add: generateVideo_def ensureInitialized_def)

lemma generateVideo_with_key:
  assumes "API_KEY w = Some key" and "key \<noteq> []"
  shows "generateVideo w svc request =
     (case generateVideos w \<lparr>apiKey = key\<rparr> (generateVideos_payload request) of
        Inl t \<Rightarrow>
          Some (Inl (Rethrown InGenerateVideos t), [GenerateVideos (generateVideos_payload request)])
      | Inr operation \<Rightarrow>
          (case poll_loop w \<lparr>apiKey = key\<rparr> 0 [GenerateVideos (generateVideos_payload request)]
                  operation of
             None \<Rightarrow> None
           | Some (Inl e, tr) \<Rightarrow> Some (Inl e, tr)
           | Some (Inr operation', tr) \<Rightarrow> Some (extract_and_download w tr operation')))"
  using assms by (simp add: generateVideo_def ensureInitialized_def)

lemma generateVideo_exit:
  assumes key: "API_KEY w = Some key" "key \<noteq> []"
    and start: "generateVideos w \<lparr>apiKey = key\<rparr> (generateVideos_payload request) = Inr operation0"
    and reach: "polled w \<lparr>apiKey = key\<rparr> 0 operation0 k = Some operation"
    and exit: "loop_exit w \<lparr>apiKey = key\<rparr> k operation = Some r"
  shows "generateVideo w svc request =
     Some (case r of
             Inl e \<Rightarrow>
               (Inl e, GenerateVideos (generateVideos_payload request) #
                       poll_trace w \<lparr>apiKey = key\<rparr> 0 operation0 (Suc k))
           | Inr operation' \<Rightarrow>
               extract_and_download w
                 (GenerateVideos (generateVideos_payload request) #
                  poll_trace w \<lparr>apiKey = key\<rparr> 0 operation0 k) operation')"
proof -
  have x: "loop_exit w \<lparr>apiKey = key\<rparr> (0 + k) operation = Some r"
    using exit by simp
  have d: "done_op operation \<longleftrightarrow> (\<exists>operation'. r = Inr operation')"
    using exit by (auto simp: loop_exit_def split: if_splits sum.splits option.splits)
  show ?thesis
    unfolding generateVideo_with_key [OF key] start
    using poll_loop_exit [OF reach x, of "[GenerateVideos (generateVideos_payload request)]"] d
    by (cases r) auto
qed

lemma generateVideo_None_iff:
  "generateVideo w svc request = None \<longleftrightarrow>
   (\<exists>key operation0. API_KEY w = Some key \<and> key \<noteq> [] \<and>
      generateVideos w \<lparr>apiKey = key\<rparr> (generateVideos_payload request) = Inr operation0 \<and>
      \<not> polling_ends w \<lparr>apiKey = key\<rparr> operation0)"
proof (cases "truthy (API_KEY w)")
  case False
  then have "\<not> (\<exists>key. API_KEY w = Some key \<and> key \<noteq> [])" by (cases "API_KEY w") auto
  then show ?thesis using generateVideo_no_key [OF False] by auto
next
  case True
  then obtain key where key: "API_KEY w = Some key" "key \<noteq> []"
    by (cases "API_KEY w") auto
  show ?thesis
  proof (cases "generateVideos w \<lparr>apiKey = key\<rparr> (generateVideos_payload request)")
    case (Inl t)
    then show ?thesis using key by (simp add: generateVideo_with_key [OF key])
  next
    case (Inr operation0)
    have "generateVideo w svc request = None \<longleftrightarrow>
          poll_loop w \<lparr>apiKey = key\<rparr> 0 [GenerateVideos (generateVideos_payload request)] operation0 = None"
      by (simp add: generateVideo_with_key [OF key] Inr split: option.splits sum.splits prod.splits)
    also have "\<dots> \<longleftrightarrow> \<not> polling_ends w \<lparr>apiKey = key\<rparr> operation0"
      unfolding poll_loop_None_iff polling_ends_def by auto
    finally show ?thesis using key Inr by simp
  qed
qed



lemma extract_and_download_url:
  "fst (extract_and_download w tr operation) = Inr url \<Longrightarrow>
   \<exists>b. url = createObjectURL w b \<and> snd (extract_and_download w tr operation) \<noteq> [] \<and>
        last (snd (extract_and_download w tr operation)) = CreateObjectURL b"
  by (auto simp: extract_and_download_def Let_def
           split: option.splits list.splits sum.splits if_splits)

lemma extract_and_download_prefix:
  "prefix tr (snd (extract_and_download w tr operation))"
  by (auto simp: extract_and_download_def Let_def
           split: option.splits list.splits sum.splits if_splits)

lemma generateVideo_Some_cases:
  assumes "generateVideo w svc request = Some (outcome, tr)"
  shows "(\<not> truthy (API_KEY w) \<and> outcome = Inl ApiKeyNotFound \<and> tr = []) \<or>
    (\<exists>key. API_KEY w = Some key \<and> key \<noteq> [] \<and>
       ((\<exists>t. generateVideos w \<lparr>apiKey = key\<rparr> (generateVideos_payload request) = Inl t \<and>
             outcome = Inl (Rethrown InGenerateVideos t) \<and>
             tr = [GenerateVideos (generateVideos_payload request)]) \<or>
        (\<exists>operation0 k h r.
             generateVideos w \<lparr>apiKey = key\<rparr> (generateVideos_payload request) = Inr operation0 \<and>
             polled w \<lparr>apiKey = key\<rparr> 0 operation0 k = Some h \<and>
             loop_exit w \<lparr>apiKey = key\<rparr> k h = Some r \<and>
             (outcome, tr) =
               (case r of
                  Inl e \<Rightarrow>
                    (Inl e, GenerateVideos (generateVideos_payload request) #
                            poll_trace w \<lparr>apiKey = key\<rparr> 0 operation0 (Suc k))
                | Inr operation' \<Rightarrow>
                    extract_and_download w
                      (GenerateVideos (generateVideos_payload request) #
                       poll_trace w \<lparr>apiKey = key\<rparr> 0 operation0 k) operation'))))"
proof (cases "truthy (API_KEY w)")
  case False
  then show ?thesis using assms generateVideo_no_key [OF False, of svc request] by simp
next
  case True
  then obtain key where key: "API_KEY w = Some key" "key \<noteq> []"
    by (cases "API_KEY w") auto
  show ?thesis
  proof (cases "generateVideos w \<lparr>apiKey = key\<rparr> (generateVideos_payload request)")
    case (Inl t)
    then show ?thesis using assms key by (simp add: generateVideo_with_key [OF key])
  next
    case (Inr operation0)
    have "generateVideo w svc request \<noteq> None" using assms by simp
    then have "polling_ends w \<lparr>apiKey = key\<rparr> operation0"
      unfolding generateVideo_None_iff using key Inr by auto
    then obtain k h r where
      p: "polled w \<lparr>apiKey = key\<rparr> 0 operation0 k = Some h" and
      x: "loop_exit w \<lparr>apiKey = key\<rparr> k h = Some r"
      unfolding polling_ends_def by auto
    from generateVideo_exit [OF key Inr p x, of svc] assms
    show ?thesis using key Inr p x by auto
  qed
qed

lemma generateVideo_trace_starts:
  assumes "generateVideo w svc request = Some (outcome, tr)" and "truthy (API_KEY w)"
  shows "\<exists>rest. tr = GenerateVideos (generateVideos_payload request) # rest"
proof -
  let ?g = "GenerateVideos (generateVideos_payload request)"
  from generateVideo_Some_cases [OF assms(1)] assms(2)
  obtain key where
    c: "tr = [?g] \<or>
        (\<exists>operation0 k h r. (outcome, tr) =
               (case r of
                  Inl e \<Rightarrow> (Inl e, ?g # poll_trace w \<lparr>apiKey = key\<rparr> 0 operation0 (Suc k))
                | Inr operation' \<Rightarrow>
                    extract_and_download w (?g # poll_trace w \<lparr>apiKey = key\<rparr> 0 operation0 k)
                      operation'))"
    by blast
  show ?thesis
  proof (cases "tr = [?g]")
    case True
    then show ?thesis by simp
  next
    case False
    with c obtain operation0 k h r where
      o: "(outcome, tr) =
               (case r of
                  Inl e \<Rightarrow> (Inl e, ?g # poll_trace w \<lparr>apiKey = key\<rparr> 0 operation0 (Suc k))
                | Inr operation' \<Rightarrow>
                    extract_and_download w (?g # poll_trace w \<lparr>apiKey = key\<rparr> 0 operation0 k)
                      operation')"
      by blast
    show ?thesis
    proof (cases r)
      case (Inl e)
      then show ?thesis using o by simp
    next
      case (Inr operation')
      then have "tr = snd (extract_and_download w (?g # poll_trace w \<lparr>apiKey = key\<rparr> 0 operation0 k)
                      operation')"
        using o by (metis snd_conv sum.simps(6))
      then have "prefix (?g # poll_trace w \<lparr>apiKey = key\<rparr> 0 operation0 k) tr"
        using extract_and_download_prefix by simp
      then show ?thesis by (auto simp: prefix_def)
    qed
  qed
qed


lemma generateVideo_url:
  assumes "generateVideo w svc request = Some (Inr url, tr)"
  shows "\<exists>b. url = createObjectURL w b \<and> tr \<noteq> [] \<and> last tr = CreateObjectURL b"
proof -
  from generateVideo_Some_cases [OF assms]
  obtain key operation0 k h r where
    o: "(Inr url :: error + string, tr) =
               (case r of
                  Inl e \<Rightarrow>
                    (Inl e, GenerateVideos (generateVideos_payload request) #
                            poll_trace w \<lparr>apiKey = key\<rparr> 0 operation0 (Suc k))
                | Inr operation' \<Rightarrow>
                    extract_and_download w
                      (GenerateVideos (generateVideos_payload request) #
                       poll_trace w \<lparr>apiKey = key\<rparr> 0 operation0 k) operation')"
    by auto
  then obtain operation' where r: "r = Inr operation'" by (cases r) auto
  let ?x = "extract_and_download w
                      (GenerateVideos (generateVideos_payload request) #
                       poll_trace w \<lparr>apiKey = key\<rparr> 0 operation0 k) operation'"
  have x: "?x = (Inr url, tr)" using o r by simp
  then have "fst ?x = Inr url" by simp
  from extract_and_download_url [OF this] show ?thesis using x by simp
qed

lemma reaches_iff:
  "reaches w request key k h \<longleftrightarrow>
   (API_KEY w = Some key \<and> key \<noteq> [] \<and>
    (\<exists>operation0. generateVideos w \<lparr>apiKey = key\<rparr> (generateVideos_payload request) = Inr operation0 \<and>
       polled w \<lparr>apiKey = key\<rparr> 0 operation0 k = Some h))"
  by (auto simp: reaches_def split: sum.splits)

lemma extract_and_download_cases:
  assumes "extract_and_download w tr h = (outcome, tr')" and "API_KEY w = Some key"
  shows "(\<exists>x. error_op h = Some x \<and> outcome = Inl (OperationError x) \<and> tr' = tr) \<or>
    (error_op h = None \<and> outcome = Inl NoVideoReturned \<and> tr' = tr \<and>
       (case response_op h of
          None \<Rightarrow> True
        | Some r \<Rightarrow> generatedVideos r = None \<or> generatedVideos r = Some [])) \<or>
    (error_op h = None \<and> outcome = Inl VideoUriMissing \<and> tr' = tr \<and>
       (\<exists>r g gs. response_op h = Some r \<and> generatedVideos r = Some (g # gs) \<and>
          \<not> truthy (first_video_uri g))) \<or>
    (\<exists>u. error_op h = None \<and> video_uri_of h = Some u \<and>
       ((\<exists>t. fetch w (downloadUrl (Some key) u) = Inl t \<and>
             outcome = Inl (Rethrown InFetch t) \<and> tr' = tr @ [Fetch (downloadUrl (Some key) u)]) \<or>
        (\<exists>response. fetch w (downloadUrl (Some key) u) = Inr response \<and> \<not> ok response \<and>
             outcome = Inl (DownloadFailed (statusText response)) \<and>
             tr' = tr @ [Fetch (downloadUrl (Some key) u)]) \<or>
        (\<exists>response t. fetch w (downloadUrl (Some key) u) = Inr response \<and> ok response \<and>
             blob response = Inl t \<and> outcome = Inl (Rethrown InBlob t) \<and>
             tr' = tr @ [Fetch (downloadUrl (Some key) u)]) \<or>
        (\<exists>response b. fetch w (downloadUrl (Some key) u) = Inr response \<and> ok response \<and>
             blob response = Inr b \<and> outcome = Inr (createObjectURL w b) \<and>
             tr' = tr @ [Fetch (downloadUrl (Some key) u), CreateObjectURL b])))"
proof (cases "error_op h")
  case (Some x)
  then show ?thesis using assms(1) by (simp add: extract_and_download_def)
next
  case None
  show ?thesis
  proof (cases "video_uri_of h")
    case N: None
    then show ?thesis
      using assms(1) None
      by (auto simp: extract_and_download_def video_uri_of_def
               split: option.splits list.splits if_splits)
  next
    case (Some u)
    then have e: "extract_and_download w tr h =
      (let url = downloadUrl (Some key) u in
       case fetch w url of
         Inl t \<Rightarrow> (Inl (Rethrown InFetch t), tr @ [Fetch url])
       | Inr response \<Rightarrow>
           if \<not> ok response
           then (Inl (DownloadFailed (statusText response)), tr @ [Fetch url])
           else
             (case blob response of
                Inl t \<Rightarrow> (Inl (Rethrown InBlob t), tr @ [Fetch url])
              | Inr b \<Rightarrow> (Inr (createObjectURL w b), tr @ [Fetch url, CreateObjectURL b])))"
      using None assms(2)
      by (auto simp: extract_and_download_def video_uri_of_def
               split: option.splits list.splits if_splits)
    show ?thesis
      using assms(1) None Some unfolding e Let_def
      by (auto split: sum.splits if_splits)
  qed
qed

lemma loop_exit_cases:
  assumes "loop_exit w c k h = Some r"
  shows "(done_op h \<and> r = Inr h) \<or>
    (\<not> done_op h \<and> (\<exists>t. getVideosOperation w c k h = Inl t \<and> r = Inl (Rethrown InGetVideosOperation t))) \<or>
    (\<not> done_op h \<and> (\<exists>h' x. getVideosOperation w c k h = Inr h' \<and> error_op h' = Some x \<and>
        r = Inl (OperationError x)))"
  using assms by (auto simp: loop_exit_def split: if_splits sum.splits option.splits)

lemma generateVideo_explained:
  assumes "generateVideo w svc request = Some (outcome, tr)"
  shows "case outcome of
            Inr url \<Rightarrow>
              (\<exists>key k h u response b.
                 reaches w request key k h \<and> done_op h \<and> error_op h = None \<and>
                 video_uri_of h = Some u \<and>
                 fetch w (downloadUrl (Some key) u) = Inr response \<and> ok response \<and>
                 blob response = Inr b \<and> url = createObjectURL w b \<and>
                 filter is_fetch tr = [Fetch (downloadUrl (Some key) u)] \<and>
                 last tr = CreateObjectURL b)
          | Inl e \<Rightarrow> failure_cause w request e"
proof -
  let ?g = "GenerateVideos (generateVideos_payload request)"
  from generateVideo_Some_cases [OF assms]
  consider "\<not> truthy (API_KEY w)" "outcome = Inl ApiKeyNotFound"
    | key t where "API_KEY w = Some key" "key \<noteq> []"
        "generateVideos w \<lparr>apiKey = key\<rparr> (generateVideos_payload request) = Inl t"
        "outcome = Inl (Rethrown InGenerateVideos t)"
    | key operation0 k h r where "API_KEY w = Some key" "key \<noteq> []"
        "generateVideos w \<lparr>apiKey = key\<rparr> (generateVideos_payload request) = Inr operation0"
        "polled w \<lparr>apiKey = key\<rparr> 0 operation0 k = Some h"
        "loop_exit w \<lparr>apiKey = key\<rparr> k h = Some r"
        "(outcome, tr) =
               (case r of
                  Inl e \<Rightarrow> (Inl e, ?g # poll_trace w \<lparr>apiKey = key\<rparr> 0 operation0 (Suc k))
                | Inr operation' \<Rightarrow>
                    extract_and_download w (?g # poll_trace w \<lparr>apiKey = key\<rparr> 0 operation0 k)
                      operation')"
    by blast
  then show ?thesis
  proof cases
    case 1
    then show ?thesis by simp
  next
    case 2
    then show ?thesis by auto
  next
    case 3
    have reach: "reaches w request key k h"
      using 3(1-4) by (simp add: reaches_iff)
    let ?tr = "?g # poll_trace w \<lparr>apiKey = key\<rparr> 0 operation0 k"
    have nf: "filter is_fetch ?tr = []"
      using poll_trace_no_fetch [of w "\<lparr>apiKey = key\<rparr>" 0 operation0 k] by simp
    from loop_exit_cases [OF 3(5)] show ?thesis
    proof (elim disjE conjE exE)
      assume d: "done_op h" and r: "r = Inr h"
      have x: "extract_and_download w ?tr h = (outcome, tr)" using 3(6) r by simp
      from extract_and_download_cases [OF x 3(1)] show ?thesis
      proof (elim disjE conjE exE)
        fix x assume "error_op h = Some x" "outcome = Inl (OperationError x)"
        then show ?thesis using reach d by (simp; blast)
      next
        assume "error_op h = None" "outcome = Inl NoVideoReturned"
          "case response_op h of None \<Rightarrow> True
           | Some r \<Rightarrow> generatedVideos r = None \<or> generatedVideos r = Some []"
        then show ?thesis using reach d by (simp; blast)
      next
        fix r' g gs
        assume "error_op h = None" "outcome = Inl VideoUriMissing"
          "response_op h = Some r'" "generatedVideos r' = Some (g # gs)"
          "\<not> truthy (first_video_uri g)"
        then show ?thesis using reach d by (simp; blast)
      next
        fix u t
        assume "error_op h = None" "video_uri_of h = Some u"
          "fetch w (downloadUrl (Some key) u) = Inl t" "outcome = Inl (Rethrown InFetch t)"
        then show ?thesis using reach d by (simp; blast)
      next
        fix u response
        assume "error_op h = None" "video_uri_of h = Some u"
          "fetch w (downloadUrl (Some key) u) = Inr response" "\<not> ok response"
          "outcome = Inl (DownloadFailed (statusText response))"
        then show ?thesis using reach d by (simp; blast)
      next
        fix u response t
        assume "error_op h = None" "video_uri_of h = Some u"
          "fetch w (downloadUrl (Some key) u) = Inr response" "ok response"
          "blob response = Inl t" "outcome = Inl (Rethrown InBlob t)"
        then show ?thesis using reach d by (simp; blast)
      next
        fix u response b
        assume a: "error_op h = None" "video_uri_of h = Some u"
          "fetch w (downloadUrl (Some key) u) = Inr response" "ok response"
          "blob response = Inr b" "outcome = Inr (createObjectURL w b)"
          "tr = ?tr @ [Fetch (downloadUrl (Some key) u), CreateObjectURL b]"
        have "filter is_fetch tr = [Fetch (downloadUrl (Some key) u)]"
          unfolding a(7) using nf by simp
        moreover have "last tr = CreateObjectURL b" unfolding a(7) by simp
        ultimately show ?thesis using a(1-6) reach d by (simp; blast)
      qed
    next
      fix t
      assume "\<not> done_op h" "getVideosOperation w \<lparr>apiKey = key\<rparr> k h = Inl t"
        "r = Inl (Rethrown InGetVideosOperation t)"
      then show ?thesis using reach 3(6) by (simp; blast)
    next
      fix h' x
      assume "\<not> done_op h" "getVideosOperation w \<lparr>apiKey = key\<rparr> k h = Inr h'"
        "error_op h' = Some x" "r = Inl (OperationError x)"
      then show ?thesis using reach 3(6) by (simp; blast)
    qed
  qed
qed

section \<open>URLs, identifiers and substrings\<close>

lemma url_parts_with_query:
  assumes "CHR ''?'' \<in> set u"
  shows "url_path (u @ s) = url_path u"
    and "url_query (u @ s) = Some (the (url_query u) @ s)"
proof -
  show "url_path (u @ s) = url_path u"
    using assms by (simp add: url_path_def takeWhile_append1)
  have "dropWhile (\<lambda>x. x \<noteq> CHR ''?'') u \<noteq> []"
    using assms by (simp add: dropWhile_eq_Nil_conv)
  moreover have "dropWhile (\<lambda>x. x \<noteq> CHR ''?'') (u @ s) = dropWhile (\<lambda>x. x \<noteq> CHR ''?'') u @ s"
    using assms by (simp add: dropWhile_append1)
  ultimately show "url_query (u @ s) = Some (the (url_query u) @ s)"
    using assms by (simp add: url_query_def)
qed

lemma url_parts_without_query:
  assumes "CHR ''?'' \<notin> set u"
  shows "url_path (u @ CHR ''?'' # s) = u"
    and "url_query (u @ CHR ''?'' # s) = Some s"
    and "url_path u = u"
    and "url_query u = None"
proof -
  have all: "\<forall>x\<in>set u. x \<noteq> CHR ''?''" using assms by auto
  show "url_path (u @ CHR ''?'' # s) = u"
    using all by (simp add: url_path_def takeWhile_append2)
  show "url_query (u @ CHR ''?'' # s) = Some s"
    using all by (simp add: url_query_def dropWhile_append2)
  show "url_path u = u"
    using all by (simp add: url_path_def)
  show "url_query u = None"
    using assms by (simp add: url_query_def)
qed







lemma includes_str_sublist: "includes_str s pat \<longleftrightarrow> sublist pat s"
  by (induction s) (simp_all add: sublist_Cons_right)

lemma is_key_error_iff:
  "is_key_error m \<longleftrightarrow>
   (\<exists>s. m = Some s \<and>
      (sublist ''Requested entity was not found'' s \<or> sublist ''API key not valid'' s))"
proof (cases m)
  case None
  then show ?thesis by (simp add: is_key_error_def)
next
  case (Some s)
  have "s = [] \<Longrightarrow> \<not> sublist ''Requested entity was not found'' s \<and> \<not> sublist ''API key not valid'' s"
    by simp
  then show ?thesis using Some by (auto simp: is_key_error_def includes_str_sublist)
qed

section \<open>The message list\<close>

lemma same_entry_refl: "same_entry m m"
  by (simp add: same_entry_def)

lemma same_entry_trans: "same_entry a b \<Longrightarrow> same_entry b c \<Longrightarrow> same_entry a c"
  by (simp add: same_entry_def)

lemma same_entry_complete: "same_entry m (complete_message a url m)"
  by (simp add: same_entry_def complete_message_def)

lemma same_entry_fail: "same_entry m (fail_message a e m)"
  by (simp add: same_entry_def fail_message_def)

lemma settle_messages:
  "messages (handleSendMessage_settle a outcome st) =
     map (case outcome of Inr url \<Rightarrow> complete_message a url | Inl e \<Rightarrow> fail_message a e)
       (messages st)"
  by (cases outcome) (simp_all add: handleSendMessage_settle_def)

lemma settle_messages_update:
  "messages (handleSendMessage_settle agentId outcome st) =
     map (settled_update agentId outcome) (messages st)"
proof -
  have "(case outcome of Inr url \<Rightarrow> complete_message agentId url | Inl e \<Rightarrow> fail_message agentId e) =
        settled_update agentId outcome"
    by (cases outcome)
       (auto simp: fun_eq_iff settled_update_def complete_message_def fail_message_def)
  then show ?thesis by (simp add: settle_messages)
qed

lemma settle_same_entries:
  "list_all2 same_entry (messages st) (messages (handleSendMessage_settle a outcome st))"
  unfolding settle_messages
  by (cases outcome) (simp_all add: list_all2_map2 list.rel_refl same_entry_complete same_entry_fail)


lemma settle_fresh_prefix:
  assumes "a \<notin> id_msg ` set ms"
  shows "map (case outcome of Inr url \<Rightarrow> complete_message a url | Inl e \<Rightarrow> fail_message a e) ms = ms"
proof -
  have "\<forall>m\<in>set ms. (case outcome of Inr url \<Rightarrow> complete_message a url | Inl e \<Rightarrow> fail_message a e) m = m"
    using assms by (cases outcome) (auto simp: complete_message_def fail_message_def)
  then show ?thesis by (simp add: map_idI)
qed

lemma or_else_nonempty: "b \<noteq> [] \<Longrightarrow> or_else a b \<noteq> []"
  by (simp add: or_else_def split: option.splits)

lemma submit_messages:
  "apiKeySet st \<Longrightarrow>
   messages (handleSendMessage_submit clk content img st) =
     messages st @ [newUserMessage clk content img, newAgentMessage clk]"
  by (simp add: handleSendMessage_submit_def)

lemma handleSendMessage_settled:
  assumes "apiKeySet st"
    and "generateVideo w svc (request_of content img mime cfg) = Some (outcome, tr)"
  shows "handleSendMessage w svc clk content img mime cfg st =
           handleSendMessage_settle (agentMessageId clk) outcome
             (handleSendMessage_submit clk content img st)"
  using assms by (simp add: handleSendMessage_def)

lemma handleSendMessage_as_run:
  "handleSendMessage w svc clk txt img mime cfg st =
     (if \<not> apiKeySet st then st
      else case generateVideo w svc (request_of txt img mime cfg) of
             None \<Rightarrow> run [Submitted clk txt img] st
           | Some (outcome, tr) \<Rightarrow> run [Submitted clk txt img, Settled (agentMessageId clk) outcome] st)"
  by (simp add: handleSendMessage_def split: option.splits prod.splits)

lemma step_same_entries:
  "length (messages st) \<le> length (messages (step e st)) \<and>
   list_all2 same_entry (messages st) (take (length (messages st)) (messages (step e st)))"
proof (cases e)
  case (KeyChecked studio envkey)
  then show ?thesis
    by (simp add: checkApiKey_def list.rel_refl same_entry_refl split: option.splits sum.splits)
next
  case (KeySelected x)
  then show ?thesis by (simp add: handleSelectKey_def list.rel_refl same_entry_refl)
next
  case (Submitted clk content img)
  then show ?thesis
    by (simp add: handleSendMessage_submit_def list.rel_refl same_entry_refl)
next
  case (Settled a outcome)
  have "length (messages (handleSendMessage_settle a outcome st)) = length (messages st)"
    by (simp add: settle_messages)
  then show ?thesis using Settled settle_same_entries [of st a outcome] by simp
qed

lemma run_same_entries:
  "length (messages st) \<le> length (messages (run es st)) \<and>
   list_all2 same_entry (messages st) (take (length (messages st)) (messages (run es st)))"
proof (induction es arbitrary: st)
  case Nil
  show ?case by (simp add: list.rel_refl same_entry_refl)
next
  case (Cons e es)
  let ?a = "messages st" and ?b = "messages (step e st)" and ?c = "messages (run es (step e st))"
  have ab: "length ?a \<le> length ?b" "list_all2 same_entry ?a (take (length ?a) ?b)"
    using step_same_entries [of st e] by simp_all
  have bc: "length ?b \<le> length ?c" "list_all2 same_entry ?b (take (length ?b) ?c)"
    using Cons.IH [of "step e st"] by simp_all
  have "list_all2 same_entry (take (length ?a) ?b) (take (length ?a) (take (length ?b) ?c))"
    using bc(2) by (rule list_all2_takeI)
  moreover have "take (length ?a) (take (length ?b) ?c) = take (length ?a) ?c"
    using ab(1) by (simp add: min_def)
  ultimately have "list_all2 same_entry (take (length ?a) ?b) (take (length ?a) ?c)" by simp
  with ab(2) have "list_all2 same_entry ?a (take (length ?a) ?c)"
    by (rule list_all2_trans [rotated 1]) (rule same_entry_trans)
  then show ?case using ab(1) bc(1) by simp
qed

lemma step_known_status:
  assumes "\<forall>m\<in>set (messages st). known_status m"
  shows "\<forall>m\<in>set (messages (step e st)). known_status m"
proof (cases e)
  case (KeyChecked studio envkey)
  then show ?thesis using assms by (simp add: checkApiKey_def split: option.splits sum.splits)
next
  case (KeySelected x)
  then show ?thesis using assms by (simp add: handleSelectKey_def)
next
  case (Submitted clk content img)
  then show ?thesis
    using assms
    by (auto simp: handleSendMessage_submit_def known_status_def newUserMessage_def
          newAgentMessage_def)
next
  case (Settled a outcome)
  then show ?thesis
    using assms
    by (cases outcome)
       (auto simp: settle_messages known_status_def complete_message_def fail_message_def)
qed

lemma run_known_status:
  "\<forall>m\<in>set (messages st). known_status m \<Longrightarrow> \<forall>m\<in>set (messages (run es st)). known_status m"
proof (induction es arbitrary: st)
  case Nil
  then show ?case by simp
next
  case (Cons e es)
  from step_known_status [OF Cons.prems, of e] have "\<forall>m\<in>set (messages (step e st)). known_status m" .
  from Cons.IH [OF this] show ?case by simp
qed

lemma step_nth:
  assumes "i < length (messages st)"
  shows "i < length (messages (step ev st)) \<and>
         messages (step ev st) ! i = event_update ev (messages st ! i)"
proof (cases ev)
  case (KeyChecked studio envkey)
  then show ?thesis
    using assms by (simp add: checkApiKey_def split: option.splits sum.splits)
next
  case (KeySelected available)
  then show ?thesis using assms by (simp add: handleSelectKey_def)
next
  case (Submitted clk content img)
  then show ?thesis
    using assms by (simp add: handleSendMessage_submit_def nth_append)
next
  case (Settled agentId outcome)
  then show ?thesis using assms by (simp add: settle_messages_update)
qed

lemma run_nth:
  "i < length (messages st) \<Longrightarrow>
   i < length (messages (run es st)) \<and>
   messages (run es st) ! i = foldl (\<lambda>m ev. event_update ev m) (messages st ! i) es"
proof (induction es arbitrary: st)
  case Nil
  then show ?case by simp
next
  case (Cons ev es)
  from step_nth [OF Cons.prems, of ev]
  have 1: "i < length (messages (step ev st))"
    and 2: "messages (step ev st) ! i = event_update ev (messages st ! i)"
    by simp_all
  from Cons.IH [OF 1] show ?case using 2 by simp
qed

lemma initial_known_status: "\<forall>m\<in>set (messages (initial_state t)). known_status m"
  by (simp add: initial_state_def welcome_message_def known_status_def)

lemma handleSendMessage_known_status:
  assumes "\<forall>m\<in>set (messages st). known_status m"
  shows "\<forall>m\<in>set (messages (handleSendMessage w svc clk content img mime cfg st)). known_status m"
  unfolding handleSendMessage_as_run
  using assms run_known_status [OF assms]
  by (simp split: option.splits prod.splits del: run.simps)

lemma welcome_id: "id_msg (welcome_message t) = ''welcome''"
  by (simp add: welcome_message_def)


lemma ids_before_initial: "ids_before t (messages (initial_state t0))"
  by (simp add: ids_before_def initial_state_def welcome_message_def)



section \<open>The example runs\<close>

lemma scripted_simps:
  "API_KEY (scripted_world answers) = Some ''KEY''"
  "generateVideos (scripted_world answers) c p = Inr pending_operation"
  "getVideosOperation (scripted_world answers) c n operation =
     Inr (if n < length answers then answers ! n else pending_operation)"
  "fetch (scripted_world answers) url = Inr \<lparr>ok = True, statusText = ''OK'', blob = Inr ''mp4''\<rparr>"
  "createObjectURL (scripted_world answers) b = ''blob:'' @ b"
  by (simp_all add: scripted_world_def)

lemma stuck_polled:
  "polled (scripted_world []) c n pending_operation j = Some pending_operation"
  by (induction j arbitrary: n) (simp_all add: scripted_simps pending_operation_def)

lemma slow_polled:
  "polled slow_world \<lparr>apiKey = ''KEY''\<rparr> 0 pending_operation 3 =
     Some (finished_operation [video_at ''https://videos.example/lake''])"
  by (simp add: slow_world_def scripted_simps pending_operation_def finished_operation_def
        numeral_3_eq_3)

lemma stuck_never_ends:
  "\<not> polling_ends (scripted_world []) c pending_operation"
proof
  assume "polling_ends (scripted_world []) c pending_operation"
  then obtain k operation where
    p: "polled (scripted_world []) c 0 pending_operation k = Some operation" and
    x: "loop_exit (scripted_world []) c k operation \<noteq> None"
    unfolding polling_ends_def by blast
  from p have "operation = pending_operation" by (simp add: stuck_polled)
  then show False
    using x by (simp add: loop_exit_def scripted_simps pending_operation_def)
qed

lemma lake_poll_loop:
  "poll_loop lake_world \<lparr>apiKey = ''KEY''\<rparr> 0 tr pending_operation =
     Some (Inr (finished_operation [video_at ''https://videos.example/lake'']),
           tr @ [Wait 5000, GetVideosOperation pending_operation,
                 Wait 5000, GetVideosOperation pending_operation])"
  by (simp add: lake_world_def scripted_simps poll_loop.simps pending_operation_def
        finished_operation_def)

lemma lake_run:
  "generateVideo lake_world fresh_service lake_request =
     Some (Inr ''blob:mp4'',
           [GenerateVideos (generateVideos_payload lake_request),
            Wait 5000, GetVideosOperation pending_operation,
            Wait 5000, GetVideosOperation pending_operation,
            Fetch ''https://videos.example/lake?key=KEY'', CreateObjectURL ''mp4''])"
  by (simp add: generateVideo_def ensureInitialized_def fresh_service_def lake_world_def
        scripted_simps poll_loop.simps pending_operation_def finished_operation_def
        extract_and_download_def video_at_def first_video_uri_def downloadUrl_def template_def)

lemma query_run:
  "generateVideo
     (scripted_world [finished_operation [video_at ''https://videos.example/lake?alt=media'']])
     fresh_service lake_request =
     Some (Inr ''blob:mp4'',
           [GenerateVideos (generateVideos_payload lake_request),
            Wait 5000, GetVideosOperation pending_operation,
            Fetch ''https://videos.example/lake?alt=media&key=KEY'', CreateObjectURL ''mp4''])"
  by (simp add: generateVideo_def ensureInitialized_def fresh_service_def
        scripted_simps poll_loop.simps pending_operation_def finished_operation_def
        extract_and_download_def video_at_def first_video_uri_def downloadUrl_def template_def)

lemma throwing_run:
  "generateVideo (throwing_world m) fresh_service request =
     Some (Inl (Rethrown InGenerateVideos (Thrown (Some m))),
           [GenerateVideos (generateVideos_payload request)])"
  by (simp add: generateVideo_def ensureInitialized_def throwing_world_def scripted_simps)

lemma lake_ids: "userMessageId lake_clock = ''1000'' \<and> agentMessageId lake_clock = ''1001''"
  by code_simp


lemma lake_request_of:
  "request_of ''a calm lake at sunset'' None None (config lake_request) = lake_request"
  by (simp add: request_of_def lake_request_def)

lemma ready_state_simps:
  "apiKeySet ready_state" "messages ready_state = [welcome_message 0]"
  by (simp_all add: ready_state_def handleSelectKey_def initial_state_def)

section \<open>The generation client\<close>




text \<open>
  C2. When a status call answers with a handle that carries an error field,
  \<^verbatim>\<open>generateVideo\<close> fails with that error, whatever else the answer holds. The failing
  call is the last call of the run: after \<open>k\<close> answered polls it is status call number
  \<open>k + 1\<close>, and nothing is downloaded.
\<close>

theorem error_response_stops_polling:
  assumes "API_KEY w = Some key" and "key \<noteq> []"
    and "generateVideos w \<lparr>apiKey = key\<rparr> (generateVideos_payload request) = Inr operation0"
    and "polled w \<lparr>apiKey = key\<rparr> 0 operation0 k = Some operation"
    and "\<not> done_op operation"
    and "getVideosOperation w \<lparr>apiKey = key\<rparr> k operation = Inr operation'"
    and "error_op operation' = Some e"
  shows "\<exists>tr. generateVideo w svc request = Some (Inl (OperationError e), tr) \<and>
           message_of (OperationError e) =
             Some (or_else (failure_message e) ''Unknown error during video generation'') \<and>
           length (filter is_status_call tr) = Suc k \<and>
           last tr = GetVideosOperation operation \<and>
           filter is_fetch tr = []"
proof -
  let ?c = "\<lparr>apiKey = key\<rparr>"
  let ?tr = "GenerateVideos (generateVideos_payload request) # poll_trace w ?c 0 operation0 (Suc k)"
  have x: "loop_exit w ?c k operation = Some (Inl (OperationError e))"
    using assms(5-7) by (simp add: loop_exit_def)
  have g: "generateVideo w svc request = Some (Inl (OperationError e), ?tr)"
    using generateVideo_exit [OF assms(1-4) x, of svc] by simp
  have ne: "poll_trace w ?c 0 operation0 (Suc k) \<noteq> []" by simp
  have "length (filter is_status_call ?tr) = Suc k"
    using poll_trace_Suc_facts(1) [OF assms(4)] by (simp del: poll_trace.simps)
  moreover have "last ?tr = GetVideosOperation operation"
    using poll_trace_Suc_facts(2) [OF assms(4)] ne by (simp del: poll_trace.simps)
  moreover have "filter is_fetch ?tr = []"
    using poll_trace_no_fetch [of w ?c 0 operation0 "Suc k"] by (simp del: poll_trace.simps)
  ultimately show ?thesis using g by simp
qed

theorem error_response_stops_polling_witness:
  "generateVideo (scripted_world [pending_operation, failed_operation ''quota exceeded''])
     fresh_service lake_request =
     Some (Inl (OperationError (OperationFailure (Some ''quota exceeded''))),
           [GenerateVideos (generateVideos_payload lake_request),
            Wait 5000, GetVideosOperation pending_operation,
            Wait 5000, GetVideosOperation pending_operation]) \<and>
   message_of (OperationError (OperationFailure (Some ''quota exceeded''))) = Some ''quota exceeded''"
proof -
  let ?w = "scripted_world [pending_operation, failed_operation ''quota exceeded'']"
  let ?c = "\<lparr>apiKey = ''KEY''\<rparr>"
  let ?e = "OperationFailure (Some ''quota exceeded'')"
  have 1: "API_KEY ?w = Some ''KEY''" and 2: "''KEY'' \<noteq> []"
    and 3: "generateVideos ?w ?c (generateVideos_payload lake_request) = Inr pending_operation"
    and 4: "polled ?w ?c 0 pending_operation 1 = Some pending_operation"
    and 5: "\<not> done_op pending_operation"
    and 6: "getVideosOperation ?w ?c 1 pending_operation = Inr (failed_operation ''quota exceeded'')"
    and 7: "error_op (failed_operation ''quota exceeded'') = Some ?e"
    by (simp_all add: scripted_simps pending_operation_def failed_operation_def)
  from error_response_stops_polling [OF 1 2 3 4 5 6 7, of fresh_service]
  obtain tr where
    g: "generateVideo ?w fresh_service lake_request = Some (Inl (OperationError ?e), tr)" and
    m: "message_of (OperationError ?e) =
          Some (or_else (failure_message ?e) ''Unknown error during video generation'')"
    by blast
  have "generateVideo ?w fresh_service lake_request =
     Some (Inl (OperationError ?e),
           [GenerateVideos (generateVideos_payload lake_request),
            Wait 5000, GetVideosOperation pending_operation,
            Wait 5000, GetVideosOperation pending_operation])"
    by (simp add: generateVideo_def ensureInitialized_def fresh_service_def
        scripted_simps poll_loop.simps pending_operation_def failed_operation_def)
  then show ?thesis using m by (simp add: or_else_def)
qed

text \<open>
  C3. When the polling ends with a handle that is done and has no error field, but no
  response, no list of generated videos, an empty list or a first entry without a URI,
  \<^verbatim>\<open>generateVideo\<close> fails with one of its two payload errors, and nothing is fetched.
\<close>

theorem missing_payload_fails:
  assumes "API_KEY w = Some key" and "key \<noteq> []"
    and "generateVideos w \<lparr>apiKey = key\<rparr> (generateVideos_payload request) = Inr operation0"
    and "polled w \<lparr>apiKey = key\<rparr> 0 operation0 k = Some operation"
    and "done_op operation"
    and "error_op operation = None"
    and "payload_missing operation"
  shows "\<exists>e tr. generateVideo w svc request = Some (Inl e, tr) \<and>
           (e = NoVideoReturned \<or> e = VideoUriMissing) \<and>
           kind_of e = Some MissingPayloadError \<and>
           filter is_fetch tr = []"
proof -
  let ?c = "\<lparr>apiKey = key\<rparr>"
  let ?tr = "GenerateVideos (generateVideos_payload request) # poll_trace w ?c 0 operation0 k"
  have x: "loop_exit w ?c k operation = Some (Inr operation)"
    using assms(5) by (simp add: loop_exit_def)
  have g: "generateVideo w svc request = Some (extract_and_download w ?tr operation)"
    using generateVideo_exit [OF assms(1-4) x, of svc] by simp
  have nf: "filter is_fetch ?tr = []"
    using poll_trace_no_fetch [of w ?c 0 operation0 k] by simp
  have "extract_and_download w ?tr operation = (Inl NoVideoReturned, ?tr) \<or>
        extract_and_download w ?tr operation = (Inl VideoUriMissing, ?tr)"
    using assms(6,7)
    by (auto simp: extract_and_download_def payload_missing_def
             split: option.splits list.splits)
  then show ?thesis using g nf by auto
qed

theorem missing_payload_fails_witness:
  "generateVideo (scripted_world [finished_operation []]) fresh_service lake_request =
     Some (Inl NoVideoReturned,
           [GenerateVideos (generateVideos_payload lake_request),
            Wait 5000, GetVideosOperation pending_operation]) \<and>
   payload_missing (finished_operation []) \<and>
   kind_of NoVideoReturned = Some MissingPayloadError"
proof -
  let ?w = "scripted_world [finished_operation []]"
  let ?c = "\<lparr>apiKey = ''KEY''\<rparr>"
  have 1: "API_KEY ?w = Some ''KEY''" and 2: "''KEY'' \<noteq> []"
    and 3: "generateVideos ?w ?c (generateVideos_payload lake_request) = Inr pending_operation"
    and 4: "polled ?w ?c 0 pending_operation 1 = Some (finished_operation [])"
    and 5: "done_op (finished_operation [])"
    and 6: "error_op (finished_operation []) = None"
    and 7: "payload_missing (finished_operation [])"
    by (simp_all add: scripted_simps pending_operation_def finished_operation_def
          payload_missing_def)
  from missing_payload_fails [OF 1 2 3 4 5 6 7, of fresh_service]
  obtain e tr where
    g: "generateVideo ?w fresh_service lake_request = Some (Inl e, tr)" and
    k: "kind_of e = Some MissingPayloadError"
    by blast
  have "generateVideo ?w fresh_service lake_request =
     Some (Inl NoVideoReturned,
           [GenerateVideos (generateVideos_payload lake_request),
            Wait 5000, GetVideosOperation pending_operation])"
    by (simp add: generateVideo_def ensureInitialized_def fresh_service_def
        scripted_simps poll_loop.simps pending_operation_def finished_operation_def
        extract_and_download_def)
  then show ?thesis using g k 7 by simp
qed

text \<open>
  C4. The poll loop returns exactly when, after some number of full iterations, it leaves
  at its head: the handle is done (and is what the loop returns), or the status call
  threw, or its answer carried an error field. At a handle that is done it returns at
  once; at a handle that is not done it waits 5000 ms, sends the handle it holds, and
  either fails on the answer or goes on with the answer as its handle. While every
  handle is not done and nothing fails, the loop never returns; and \<^verbatim>\<open>generateVideo\<close>
  returns a URL only after a handle that is done.
\<close>

theorem poll_loop_leaves_when_done_or_error:
  "(poll_loop w c n tr operation = Some (r, tr') \<longleftrightarrow>
      (\<exists>k h. polled w c n operation k = Some h \<and> loop_exit w c (n + k) h = Some r \<and>
             tr' = tr @ poll_trace w c n operation (if done_op h then k else Suc k))) \<and>
   (poll_loop w c n tr operation = Some (r, tr') \<longrightarrow>
      (\<forall>final. r = Inr final \<longrightarrow> done_op final)) \<and>
   (done_op operation \<longrightarrow> poll_loop w c n tr operation = Some (Inr operation, tr)) \<and>
   (\<not> done_op operation \<and> getVideosOperation w c n operation = Inr operation' \<and>
    error_op operation' = None \<longrightarrow>
      poll_loop w c n tr operation =
        poll_loop w c (Suc n) (tr @ [Wait 5000, GetVideosOperation operation]) operation') \<and>
   (\<not> done_op operation \<and> getVideosOperation w c n operation = Inr operation' \<and>
    error_op operation' = Some e \<longrightarrow>
      poll_loop w c n tr operation =
        Some (Inl (OperationError e), tr @ [Wait 5000, GetVideosOperation operation])) \<and>
   (\<not> done_op operation \<and> getVideosOperation w c n operation = Inl t \<longrightarrow>
      poll_loop w c n tr operation =
        Some (Inl (Rethrown InGetVideosOperation t),
              tr @ [Wait 5000, GetVideosOperation operation])) \<and>
   (polled w c n operation k = Some h \<and> \<not> done_op h \<longrightarrow>
      poll_trace w c n operation (Suc k) =
        poll_trace w c n operation k @ [Wait 5000, GetVideosOperation h] \<and>
      (\<forall>h'. getVideosOperation w c (n + k) h = Inr h' \<and> error_op h' = None \<longrightarrow>
            polled w c n operation (Suc k) = Some h')) \<and>
   ((\<forall>j. \<exists>g. polled w c n operation j = Some g \<and> \<not> done_op g) \<longrightarrow>
      poll_loop w c n tr operation = None) \<and>
   (generateVideo w svc request = Some (Inr url, tr'') \<longrightarrow>
      (\<exists>key operation0 i g. API_KEY w = Some key \<and>
          generateVideos w \<lparr>apiKey = key\<rparr> (generateVideos_payload request) = Inr operation0 \<and>
          polled w \<lparr>apiKey = key\<rparr> 0 operation0 i = Some g \<and> done_op g))"
proof -
  have iff: "poll_loop w c n tr operation = Some (r, tr') \<longleftrightarrow>
      (\<exists>k h. polled w c n operation k = Some h \<and> loop_exit w c (n + k) h = Some r \<and>
             tr' = tr @ poll_trace w c n operation (if done_op h then k else Suc k))"
    unfolding poll_loop_iff ends_after_def by simp
  have final: "poll_loop w c n tr operation = Some (r, tr') \<longrightarrow>
      (\<forall>final. r = Inr final \<longrightarrow> done_op final)"
  proof (intro impI allI)
    fix final
    assume "poll_loop w c n tr operation = Some (r, tr')" and r: "r = Inr final"
    then obtain k h where "loop_exit w c (n + k) h = Some (Inr final)"
      unfolding iff by blast
    from loop_exit_cases [OF this] show "done_op final" by auto
  qed
  have s1: "done_op operation \<longrightarrow> poll_loop w c n tr operation = Some (Inr operation, tr)"
    by (subst poll_loop.simps) simp
  have s2: "\<not> done_op operation \<and> getVideosOperation w c n operation = Inr operation' \<and>
    error_op operation' = None \<longrightarrow>
      poll_loop w c n tr operation =
        poll_loop w c (Suc n) (tr @ [Wait 5000, GetVideosOperation operation]) operation'"
    by (subst poll_loop.simps) simp
  have s3: "\<not> done_op operation \<and> getVideosOperation w c n operation = Inr operation' \<and>
    error_op operation' = Some e \<longrightarrow>
      poll_loop w c n tr operation =
        Some (Inl (OperationError e), tr @ [Wait 5000, GetVideosOperation operation])"
    by (subst poll_loop.simps) simp
  have s4: "\<not> done_op operation \<and> getVideosOperation w c n operation = Inl t \<longrightarrow>
      poll_loop w c n tr operation =
        Some (Inl (Rethrown InGetVideosOperation t),
              tr @ [Wait 5000, GetVideosOperation operation])"
    by (subst poll_loop.simps) simp
  have v: "polled w c n operation k = Some h \<and> \<not> done_op h \<longrightarrow>
      poll_trace w c n operation (Suc k) =
        poll_trace w c n operation k @ [Wait 5000, GetVideosOperation h] \<and>
      (\<forall>h'. getVideosOperation w c (n + k) h = Inr h' \<and> error_op h' = None \<longrightarrow>
            polled w c n operation (Suc k) = Some h')"
    by (simp add: poll_trace_snoc polled_snoc loop_exit_def del: poll_trace.simps polled.simps)
  have div: "(\<forall>j. \<exists>g. polled w c n operation j = Some g \<and> \<not> done_op g) \<longrightarrow>
      poll_loop w c n tr operation = None"
  proof
    assume a: "\<forall>j. \<exists>g. polled w c n operation j = Some g \<and> \<not> done_op g"
    show "poll_loop w c n tr operation = None"
      unfolding poll_loop_None_iff
    proof (intro allI impI)
      fix j g
      assume p: "polled w c n operation j = Some g"
      from a obtain g' where "polled w c n operation (Suc j) = Some g'" by blast
      then show "loop_exit w c (n + j) g = None"
        using p by (auto simp: polled_snoc simp del: polled.simps split: option.splits)
    qed
  qed
  have gen: "generateVideo w svc request = Some (Inr url, tr'') \<longrightarrow>
      (\<exists>key operation0 i g. API_KEY w = Some key \<and>
          generateVideos w \<lparr>apiKey = key\<rparr> (generateVideos_payload request) = Inr operation0 \<and>
          polled w \<lparr>apiKey = key\<rparr> 0 operation0 i = Some g \<and> done_op g)"
  proof
    assume a: "generateVideo w svc request = Some (Inr url, tr'')"
    from generateVideo_explained [OF a]
    show "\<exists>key operation0 i g. API_KEY w = Some key \<and>
          generateVideos w \<lparr>apiKey = key\<rparr> (generateVideos_payload request) = Inr operation0 \<and>
          polled w \<lparr>apiKey = key\<rparr> 0 operation0 i = Some g \<and> done_op g"
      by (auto simp: reaches_iff)
  qed
  show ?thesis using iff final s1 s2 s3 s4 v div gen by blast
qed

theorem poll_loop_leaves_when_done_or_error_witness:
  "poll_loop lake_world \<lparr>apiKey = ''KEY''\<rparr> 0 [] pending_operation =
     Some (Inr (finished_operation [video_at ''https://videos.example/lake'']),
           [Wait 5000, GetVideosOperation pending_operation,
            Wait 5000, GetVideosOperation pending_operation]) \<and>
   done_op (finished_operation [video_at ''https://videos.example/lake'']) \<and>
   polled lake_world \<lparr>apiKey = ''KEY''\<rparr> 0 pending_operation 1 = Some pending_operation \<and>
   \<not> done_op pending_operation \<and>
   poll_trace lake_world \<lparr>apiKey = ''KEY''\<rparr> 0 pending_operation 2 =
     poll_trace lake_world \<lparr>apiKey = ''KEY''\<rparr> 0 pending_operation 1 @
       [Wait 5000, GetVideosOperation pending_operation] \<and>
   polled lake_world \<lparr>apiKey = ''KEY''\<rparr> 0 pending_operation 2 =
     Some (finished_operation [video_at ''https://videos.example/lake'']) \<and>
   poll_loop slow_world \<lparr>apiKey = ''KEY''\<rparr> 0 [] pending_operation =
     Some (Inr (finished_operation [video_at ''https://videos.example/lake'']),
           [Wait 5000, GetVideosOperation pending_operation,
            Wait 5000, GetVideosOperation pending_operation,
            Wait 5000, GetVideosOperation pending_operation]) \<and>
   poll_loop slow_world \<lparr>apiKey = ''KEY''\<rparr> 0 [] pending_operation =
     poll_loop slow_world \<lparr>apiKey = ''KEY''\<rparr> 1 [Wait 5000, GetVideosOperation pending_operation]
       pending_operation \<and>
   poll_loop slow_world \<lparr>apiKey = ''KEY''\<rparr> 3 []
       (finished_operation [video_at ''https://videos.example/lake'']) =
     Some (Inr (finished_operation [video_at ''https://videos.example/lake'']), []) \<and>
   poll_loop (scripted_world [failed_operation ''quota exceeded'']) \<lparr>apiKey = ''KEY''\<rparr> 0 []
       pending_operation =
     Some (Inl (OperationError (OperationFailure (Some ''quota exceeded''))),
           [Wait 5000, GetVideosOperation pending_operation]) \<and>
   poll_loop (scripted_world []) \<lparr>apiKey = ''KEY''\<rparr> 0 [] pending_operation = None"
proof -
  let ?c = "\<lparr>apiKey = ''KEY''\<rparr>"
  let ?fin = "finished_operation [video_at ''https://videos.example/lake'']"
  let ?p = pending_operation
  let ?tr = "[Wait 5000, GetVideosOperation ?p, Wait 5000, GetVideosOperation ?p]"
  let ?tr3 = "[Wait 5000, GetVideosOperation ?p, Wait 5000, GetVideosOperation ?p,
               Wait 5000, GetVideosOperation ?p]"
  let ?wf = "scripted_world [failed_operation ''quota exceeded'']"
  note T = poll_loop_leaves_when_done_or_error
  note c1 = T [THEN conjunct1]
  note c2 = T [THEN conjunct2, THEN conjunct1]
  note c3 = T [THEN conjunct2, THEN conjunct2, THEN conjunct1]
  note c4 = T [THEN conjunct2, THEN conjunct2, THEN conjunct2, THEN conjunct1]
  note c5 = T [THEN conjunct2, THEN conjunct2, THEN conjunct2, THEN conjunct2, THEN conjunct1]
  note c7 = T [THEN conjunct2, THEN conjunct2, THEN conjunct2, THEN conjunct2, THEN conjunct2,
               THEN conjunct2, THEN conjunct1]
  note c8 = T [THEN conjunct2, THEN conjunct2, THEN conjunct2, THEN conjunct2, THEN conjunct2,
               THEN conjunct2, THEN conjunct2, THEN conjunct1]
  have run: "poll_loop lake_world ?c 0 [] ?p = Some (Inr ?fin, ?tr)"
    using lake_poll_loop [of "[]"] by simp
  have p1: "polled lake_world ?c 0 ?p 1 = Some ?p \<and> \<not> done_op ?p"
    by (simp add: lake_world_def scripted_simps pending_operation_def)
  have answer: "getVideosOperation lake_world ?c (0 + 1) ?p = Inr ?fin \<and> error_op ?fin = None"
    by (simp add: lake_world_def scripted_simps finished_operation_def)
  have stuck: "\<forall>j. \<exists>g. polled (scripted_world []) ?c 0 ?p j = Some g \<and> \<not> done_op g"
    using stuck_polled by (simp add: pending_operation_def)
  have d: "done_op ?fin"
    using c2 [THEN mp, OF run] by simp
  have step0: "poll_trace lake_world ?c 0 ?p (Suc 1) =
          poll_trace lake_world ?c 0 ?p 1 @ [Wait 5000, GetVideosOperation ?p] \<and>
        (\<forall>h'. getVideosOperation lake_world ?c (0 + 1) ?p = Inr h' \<and> error_op h' = None \<longrightarrow>
            polled lake_world ?c 0 ?p (Suc 1) = Some h')"
    by (rule c7 [THEN mp, OF p1])
  have two: "Suc 1 = 2" by simp
  have step: "poll_trace lake_world ?c 0 ?p 2 =
          poll_trace lake_world ?c 0 ?p 1 @ [Wait 5000, GetVideosOperation ?p] \<and>
        polled lake_world ?c 0 ?p 2 = Some ?fin"
    using step0 answer unfolding two by blast
  have none: "poll_loop (scripted_world []) ?c 0 [] ?p = None"
    by (rule c8 [THEN mp, OF stuck])
  have s3: "polled slow_world ?c 0 ?p 3 = Some ?fin" by (rule slow_polled)
  have x3: "loop_exit slow_world ?c (0 + 3) ?fin = Some (Inr ?fin)"
    by (simp add: loop_exit_def finished_operation_def)
  have t3: "?tr3 = [] @ poll_trace slow_world ?c 0 ?p (if done_op ?fin then 3 else Suc 3)"
    by (simp add: slow_world_def scripted_simps numeral_3_eq_3 finished_operation_def)
  have "\<exists>k h. polled slow_world ?c 0 ?p k = Some h \<and>
      loop_exit slow_world ?c (0 + k) h = Some (Inr ?fin) \<and>
      ?tr3 = [] @ poll_trace slow_world ?c 0 ?p (if done_op h then k else Suc k)"
    using s3 x3 t3 by blast
  then have slow: "poll_loop slow_world ?c 0 [] ?p = Some (Inr ?fin, ?tr3)"
    by (rule c1 [THEN iffD2])
  have first: "\<not> done_op ?p \<and> getVideosOperation slow_world ?c 0 ?p = Inr ?p \<and> error_op ?p = None"
    by (simp add: slow_world_def scripted_simps pending_operation_def)
  have unfold: "poll_loop slow_world ?c 0 [] ?p =
      poll_loop slow_world ?c (Suc 0) ([] @ [Wait 5000, GetVideosOperation ?p]) ?p"
    by (rule c4 [THEN mp, OF first])
  have at_done: "poll_loop slow_world ?c 3 [] ?fin = Some (Inr ?fin, [])"
    by (rule c3 [THEN mp, OF d])
  have bad: "\<not> done_op ?p \<and>
      getVideosOperation ?wf ?c 0 ?p = Inr (failed_operation ''quota exceeded'') \<and>
      error_op (failed_operation ''quota exceeded'') = Some (OperationFailure (Some ''quota exceeded''))"
    by (simp add: scripted_simps pending_operation_def failed_operation_def)
  have failed: "poll_loop ?wf ?c 0 [] ?p =
      Some (Inl (OperationError (OperationFailure (Some ''quota exceeded''))),
            [] @ [Wait 5000, GetVideosOperation ?p])"
    by (rule c5 [THEN mp, OF bad])
  have unfold': "poll_loop slow_world ?c 0 [] ?p =
      poll_loop slow_world ?c 1 [Wait 5000, GetVideosOperation ?p] ?p"
    unfolding unfold by simp
  have failed': "poll_loop ?wf ?c 0 [] ?p =
      Some (Inl (OperationError (OperationFailure (Some ''quota exceeded''))),
            [Wait 5000, GetVideosOperation ?p])"
    unfolding failed by simp
  show ?thesis
    by (intro conjI) (fact run d slow unfold' at_done failed' none
         p1 [THEN conjunct1] p1 [THEN conjunct2] step [THEN conjunct1] step [THEN conjunct2])+
qed

text \<open>
  C5. When the polling ends with a handle whose first generated video has a URI, the one
  fetch of the run goes to that URI followed by \<^verbatim>\<open>&key=\<close> and the API key when the URI
  contains a question mark, and by \<^verbatim>\<open>?key=\<close> and the API key when it does not. In both
  shapes the path of the URL is the path of the URI, and its query string is the query
  string of the URI (if any) with the key parameter added.
\<close>

theorem download_url_appends_key:
  assumes "API_KEY w = Some key" and "key \<noteq> []"
    and "generateVideos w \<lparr>apiKey = key\<rparr> (generateVideos_payload request) = Inr operation0"
    and "polled w \<lparr>apiKey = key\<rparr> 0 operation0 k = Some operation"
    and "done_op operation"
    and "error_op operation = None"
    and "response_op operation = Some r"
    and "generatedVideos r = Some (g # gs)"
    and "first_video_uri g = Some videoUri"
    and "videoUri \<noteq> []"
  shows "\<exists>outcome tr. generateVideo w svc request = Some (outcome, tr) \<and>
           filter is_fetch tr = [Fetch (downloadUrl (Some key) videoUri)] \<and>
           downloadUrl (Some key) videoUri =
             videoUri @ (if CHR ''?'' \<in> set videoUri then ''&key='' else ''?key='') @ key \<and>
           url_path (downloadUrl (Some key) videoUri) = url_path videoUri \<and>
           url_query (downloadUrl (Some key) videoUri) =
             Some (case url_query videoUri of
                     None \<Rightarrow> ''key='' @ key
                   | Some q \<Rightarrow> q @ ''&key='' @ key)"
proof -
  let ?c = "\<lparr>apiKey = key\<rparr>"
  let ?tr = "GenerateVideos (generateVideos_payload request) # poll_trace w ?c 0 operation0 k"
  let ?url = "downloadUrl (Some key) videoUri"
  have x: "loop_exit w ?c k operation = Some (Inr operation)"
    using assms(5) by (simp add: loop_exit_def)
  have g: "generateVideo w svc request = Some (extract_and_download w ?tr operation)"
    using generateVideo_exit [OF assms(1-4) x, of svc] by simp
  have nf: "filter is_fetch ?tr = []"
    using poll_trace_no_fetch [of w ?c 0 operation0 k] by simp
  have "filter is_fetch (snd (extract_and_download w ?tr operation)) = [Fetch ?url]"
    using assms(1,6-10) nf
    by (auto simp: extract_and_download_def Let_def split: sum.splits simp del: poll_trace.simps)
  then have 1: "\<exists>outcome tr. generateVideo w svc request = Some (outcome, tr) \<and>
      filter is_fetch tr = [Fetch ?url]"
    using g by (cases "extract_and_download w ?tr operation") simp
  have 2: "?url = videoUri @ (if CHR ''?'' \<in> set videoUri then ''&key='' else ''?key='') @ key"
    by (simp add: downloadUrl_def template_def)
  have 3: "url_path ?url = url_path videoUri \<and>
           url_query ?url =
             Some (case url_query videoUri of
                     None \<Rightarrow> ''key='' @ key
                   | Some q \<Rightarrow> q @ ''&key='' @ key)"
  proof (cases "CHR ''?'' \<in> set videoUri")
    case True
    then obtain q where q: "url_query videoUri = Some q" by (simp add: url_query_def)
    show ?thesis
      using True q url_parts_with_query [OF True, of "''&key='' @ key"]
      by (simp add: downloadUrl_def template_def)
  next
    case False
    show ?thesis
      using False url_parts_without_query(1,2) [OF False, of "''key='' @ key"]
        url_parts_without_query(3,4) [OF False]
      by (simp add: downloadUrl_def template_def)
  qed
  show ?thesis using 1 2 3 by blast
qed

theorem download_url_appends_key_witness:
  "generateVideo lake_world fresh_service lake_request =
     Some (Inr ''blob:mp4'',
           [GenerateVideos (generateVideos_payload lake_request),
            Wait 5000, GetVideosOperation pending_operation,
            Wait 5000, GetVideosOperation pending_operation,
            Fetch ''https://videos.example/lake?key=KEY'', CreateObjectURL ''mp4'']) \<and>
   downloadUrl (Some ''KEY'') ''https://videos.example/lake'' =
     ''https://videos.example/lake?key=KEY'' \<and>
   url_query ''https://videos.example/lake?key=KEY'' = Some ''key=KEY'' \<and>
   generateVideo
     (scripted_world [finished_operation [video_at ''https://videos.example/lake?alt=media'']])
     fresh_service lake_request =
     Some (Inr ''blob:mp4'',
           [GenerateVideos (generateVideos_payload lake_request),
            Wait 5000, GetVideosOperation pending_operation,
            Fetch ''https://videos.example/lake?alt=media&key=KEY'', CreateObjectURL ''mp4'']) \<and>
   downloadUrl (Some ''KEY'') ''https://videos.example/lake?alt=media'' =
     ''https://videos.example/lake?alt=media&key=KEY'' \<and>
   url_query ''https://videos.example/lake?alt=media&key=KEY'' = Some ''alt=media&key=KEY''"
proof -
  let ?c = "\<lparr>apiKey = ''KEY''\<rparr>"
  let ?u1 = "''https://videos.example/lake''"
  let ?u2 = "''https://videos.example/lake?alt=media''"
  let ?w2 = "scripted_world [finished_operation [video_at ?u2]]"
  have a: "API_KEY lake_world = Some ''KEY''" "''KEY'' \<noteq> []"
    "generateVideos lake_world ?c (generateVideos_payload lake_request) = Inr pending_operation"
    "polled lake_world ?c 0 pending_operation 2 = Some (finished_operation [video_at ?u1])"
    "done_op (finished_operation [video_at ?u1])"
    "error_op (finished_operation [video_at ?u1]) = None"
    "response_op (finished_operation [video_at ?u1]) = Some \<lparr>generatedVideos = Some [video_at ?u1]\<rparr>"
    "generatedVideos \<lparr>generatedVideos = Some [video_at ?u1]\<rparr> = Some (video_at ?u1 # [])"
    "first_video_uri (video_at ?u1) = Some ?u1" "?u1 \<noteq> []"
    by (simp_all add: lake_world_def scripted_simps pending_operation_def finished_operation_def
          video_at_def first_video_uri_def numeral_2_eq_2)
  have b: "API_KEY ?w2 = Some ''KEY''" "''KEY'' \<noteq> []"
    "generateVideos ?w2 ?c (generateVideos_payload lake_request) = Inr pending_operation"
    "polled ?w2 ?c 0 pending_operation 1 = Some (finished_operation [video_at ?u2])"
    "done_op (finished_operation [video_at ?u2])"
    "error_op (finished_operation [video_at ?u2]) = None"
    "response_op (finished_operation [video_at ?u2]) = Some \<lparr>generatedVideos = Some [video_at ?u2]\<rparr>"
    "generatedVideos \<lparr>generatedVideos = Some [video_at ?u2]\<rparr> = Some (video_at ?u2 # [])"
    "first_video_uri (video_at ?u2) = Some ?u2" "?u2 \<noteq> []"
    by (simp_all add: scripted_simps pending_operation_def finished_operation_def
          video_at_def first_video_uri_def)
  have q1: "CHR ''?'' \<notin> set ?u1" and q2: "CHR ''?'' \<in> set ?u2" by simp_all
  have p1: "url_query ?u1 = None" using url_parts_without_query(4) [OF q1] .
  have p2: "url_query ?u2 = Some ''alt=media''" by (simp add: url_query_def)
  from download_url_appends_key [OF a, of fresh_service]
  have r1: "downloadUrl (Some ''KEY'') ?u1 =
              ?u1 @ (if CHR ''?'' \<in> set ?u1 then ''&key='' else ''?key='') @ ''KEY'' \<and>
            url_query (downloadUrl (Some ''KEY'') ?u1) =
              Some (case url_query ?u1 of None \<Rightarrow> ''key='' @ ''KEY''
                    | Some q \<Rightarrow> q @ ''&key='' @ ''KEY'')"
    by blast
  from download_url_appends_key [OF b, of fresh_service]
  have r2: "downloadUrl (Some ''KEY'') ?u2 =
              ?u2 @ (if CHR ''?'' \<in> set ?u2 then ''&key='' else ''?key='') @ ''KEY'' \<and>
            url_query (downloadUrl (Some ''KEY'') ?u2) =
              Some (case url_query ?u2 of None \<Rightarrow> ''key='' @ ''KEY''
                    | Some q \<Rightarrow> q @ ''&key='' @ ''KEY'')"
    by blast
  have s1: "downloadUrl (Some ''KEY'') ?u1 = ''https://videos.example/lake?key=KEY''"
    and s2: "downloadUrl (Some ''KEY'') ?u2 = ''https://videos.example/lake?alt=media&key=KEY''"
    by (simp_all add: downloadUrl_def template_def)
  have t1: "url_query ''https://videos.example/lake?key=KEY'' = Some ''key=KEY''"
    using r1 unfolding s1 p1 by simp
  have t2: "url_query ''https://videos.example/lake?alt=media&key=KEY'' = Some ''alt=media&key=KEY''"
    using r2 unfolding s2 p2 by simp
  show ?thesis
    using lake_run query_run s1 t1 s2 t2 by blast
qed

text \<open>
  C6. For a request without an image the object handed to \<^verbatim>\<open>generateVideos\<close> has the
  fields \<^verbatim>\<open>model\<close>, \<^verbatim>\<open>prompt\<close> and \<^verbatim>\<open>config\<close> and no field \<^verbatim>\<open>image\<close> (a field holding
  \<^verbatim>\<open>null\<close> would be found). For a request with an image it has the field \<^verbatim>\<open>image\<close>
  with the bytes and the MIME type, and is otherwise the object of the same request
  without its image. This object is what the first call of every run that has an API
  key sends.
\<close>

theorem payload_omits_absent_image:
  "(image_req request = None \<longrightarrow>
      field ''image'' (generateVideos_payload request) = None \<and>
      map fst (fields (generateVideos_payload request)) = [''model'', ''prompt'', ''config'']) \<and>
   (\<forall>img. image_req request = Some img \<longrightarrow>
      field ''image'' (generateVideos_payload request) =
        Some (JObject [(''imageBytes'', JString (data img)),
                       (''mimeType'', js_string_or_null (mimeType img))]) \<and>
      without_field ''image'' (generateVideos_payload request) =
        generateVideos_payload (request\<lparr>image_req := None\<rparr>)) \<and>
   (truthy (API_KEY w) \<and> generateVideo w svc request = Some (outcome, tr) \<longrightarrow>
      (\<exists>rest. tr = GenerateVideos (generateVideos_payload request) # rest))"
proof (intro conjI impI allI)
  assume "image_req request = None"
  then show "field ''image'' (generateVideos_payload request) = None"
    and "map fst (fields (generateVideos_payload request)) = [''model'', ''prompt'', ''config'']"
    by (simp_all add: generateVideos_payload_def field_def)
next
  fix img
  assume "image_req request = Some img"
  then show "field ''image'' (generateVideos_payload request) =
        Some (JObject [(''imageBytes'', JString (data img)),
                       (''mimeType'', js_string_or_null (mimeType img))])"
    and "without_field ''image'' (generateVideos_payload request) =
        generateVideos_payload (request\<lparr>image_req := None\<rparr>)"
    by (simp_all add: generateVideos_payload_def field_def without_field_def)
next
  assume "truthy (API_KEY w) \<and> generateVideo w svc request = Some (outcome, tr)"
  then show "\<exists>rest. tr = GenerateVideos (generateVideos_payload request) # rest"
    using generateVideo_trace_starts by blast
qed

theorem payload_omits_absent_image_witness:
  "generateVideos_payload lake_request =
     JObject [(''model'', JString ''veo-3.1-fast-generate-preview''),
              (''prompt'', JString ''a calm lake at sunset''),
              (''config'', JObject [(''numberOfVideos'', JNumber 1),
                                    (''resolution'', JString ''720p''),
                                    (''aspectRatio'', JString ''16:9'')])] \<and>
   field ''image'' (generateVideos_payload lake_request) = None \<and>
   field ''image'' (generateVideos_payload
       (lake_request\<lparr>image_req := Some \<lparr>data = ''aGk='', mimeType = Some ''image/png''\<rparr>\<rparr>)) =
     Some (JObject [(''imageBytes'', JString ''aGk=''), (''mimeType'', JString ''image/png'')]) \<and>
   without_field ''image'' (generateVideos_payload
       (lake_request\<lparr>image_req := Some \<lparr>data = ''aGk='', mimeType = Some ''image/png''\<rparr>\<rparr>)) =
     generateVideos_payload lake_request \<and>
   truthy (API_KEY lake_world) \<and>
   generateVideo lake_world fresh_service lake_request =
     Some (Inr ''blob:mp4'',
           GenerateVideos (generateVideos_payload lake_request) #
           [Wait 5000, GetVideosOperation pending_operation,
            Wait 5000, GetVideosOperation pending_operation,
            Fetch ''https://videos.example/lake?key=KEY'', CreateObjectURL ''mp4''])"
proof -
  let ?img = "\<lparr>data = ''aGk='', mimeType = Some ''image/png''\<rparr>"
  let ?r = "lake_request\<lparr>image_req := Some ?img\<rparr>"
  have p: "generateVideos_payload lake_request =
     JObject [(''model'', JString ''veo-3.1-fast-generate-preview''),
              (''prompt'', JString ''a calm lake at sunset''),
              (''config'', JObject [(''numberOfVideos'', JNumber 1),
                                    (''resolution'', JString ''720p''),
                                    (''aspectRatio'', JString ''16:9'')])]"
    by (simp add: generateVideos_payload_def lake_request_def modelName_def generateConfig_def)
  have n: "image_req lake_request = None" by (simp add: lake_request_def)
  have i: "image_req ?r = Some ?img" by simp
  have same: "?r\<lparr>image_req := None\<rparr> = lake_request" by (simp add: lake_request_def)
  have k: "truthy (API_KEY lake_world)" by (simp add: lake_world_def scripted_simps)
  have a: "field ''image'' (generateVideos_payload lake_request) = None"
    using payload_omits_absent_image [of lake_request] n by blast
  have b: "field ''image'' (generateVideos_payload ?r) =
        Some (JObject [(''imageBytes'', JString (data ?img)),
                       (''mimeType'', js_string_or_null (mimeType ?img))]) \<and>
      without_field ''image'' (generateVideos_payload ?r) =
        generateVideos_payload (?r\<lparr>image_req := None\<rparr>)"
    using payload_omits_absent_image [of ?r] i by blast
  have c: "\<exists>rest. [GenerateVideos (generateVideos_payload lake_request),
            Wait 5000, GetVideosOperation pending_operation,
            Wait 5000, GetVideosOperation pending_operation,
            Fetch ''https://videos.example/lake?key=KEY'', CreateObjectURL ''mp4''] =
             GenerateVideos (generateVideos_payload lake_request) # rest"
    using payload_omits_absent_image [of lake_request lake_world fresh_service] k lake_run by blast
  show ?thesis
    using p a b c k lake_run unfolding same by (simp add: js_string_or_null_def)
qed

section \<open>The chat\<close>

text \<open>
  C7, as the code has it. A submission (with the key set) appends the user message and
  an agent message in status \<^verbatim>\<open>generating\<close>. One call of \<^verbatim>\<open>handleSendMessage\<close> is that
  submission followed by one settling with the placeholder id when \<^verbatim>\<open>generateVideo\<close>
  settles, and by nothing when it does not: the placeholder then stays as it is. A
  settling rewrites exactly the messages with its placeholder id, to status \<^verbatim>\<open>complete\<close>
  with the fixed text and the video URL, or to status \<^verbatim>\<open>error\<close> with a non-empty error
  text. Through any sequence of events a message in the list is changed by the
  settlings with its id, one after the other, and by nothing else; every message stays
  at its place in the list, with its id, role, image and timestamp.
\<close>

theorem agent_message_lifecycle:
  "(apiKeySet st \<longrightarrow>
      messages (handleSendMessage_submit clk content img st) =
        messages st @ [newUserMessage clk content img, newAgentMessage clk] \<and>
      newAgentMessage clk =
        \<lparr>id_msg = agentMessageId clk, role = Agent, text_msg = None, image_msg = None,
         videoUrl = None, status = Some Generating, error_msg = None, timestamp = now4 clk\<rparr>) \<and>
   handleSendMessage w svc clk content img mime cfg st =
     (if \<not> apiKeySet st then st
      else case generateVideo w svc (request_of content img mime cfg) of
             None \<Rightarrow> run [Submitted clk content img] st
           | Some (outcome, tr) \<Rightarrow>
               run [Submitted clk content img, Settled (agentMessageId clk) outcome] st) \<and>
   messages (handleSendMessage_settle agentId outcome' st) =
     map (settled_update agentId outcome') (messages st) \<and>
   (apiKeySet st \<and> generateVideo w svc (request_of content img mime cfg) = None \<longrightarrow>
      last (messages (handleSendMessage w svc clk content img mime cfg st)) =
        newAgentMessage clk) \<and>
   (apiKeySet st \<and>
    generateVideo w svc (request_of content img mime cfg) = Some (Inr url, tr1) \<longrightarrow>
      last (messages (handleSendMessage w svc clk content img mime cfg st)) =
        (newAgentMessage clk)
          \<lparr>status := Some Complete, text_msg := Some ''Here is your generated video!'',
           videoUrl := Some url\<rparr>) \<and>
   (apiKeySet st \<and>
    generateVideo w svc (request_of content img mime cfg) = Some (Inl e, tr2) \<longrightarrow>
      last (messages (handleSendMessage w svc clk content img mime cfg st)) =
        (newAgentMessage clk)
          \<lparr>status := Some Error,
           error_msg := Some (or_else (message_of e)
                                ''Something went wrong while generating the video.'')\<rparr> \<and>
      or_else (message_of e) ''Something went wrong while generating the video.'' \<noteq> []) \<and>
   ((\<forall>a r. ev \<noteq> Settled a r) \<longrightarrow> prefix (messages st') (messages (step ev st'))) \<and>
   (i < length (messages st') \<longrightarrow>
      i < length (messages (run es st')) \<and>
      messages (run es st') ! i =
        foldl (\<lambda>m ev. event_update ev m) (messages st' ! i) es) \<and>
   length (messages st') \<le> length (messages (run es st')) \<and>
   list_all2 same_entry (messages st')
     (take (length (messages st')) (messages (run es st')))"
proof -
  have a: "apiKeySet st \<longrightarrow>
      messages (handleSendMessage_submit clk content img st) =
        messages st @ [newUserMessage clk content img, newAgentMessage clk] \<and>
      newAgentMessage clk =
        \<lparr>id_msg = agentMessageId clk, role = Agent, text_msg = None, image_msg = None,
         videoUrl = None, status = Some Generating, error_msg = None, timestamp = now4 clk\<rparr>"
    by (simp add: submit_messages newAgentMessage_def)
  have b: "handleSendMessage w svc clk content img mime cfg st =
     (if \<not> apiKeySet st then st
      else case generateVideo w svc (request_of content img mime cfg) of
             None \<Rightarrow> run [Submitted clk content img] st
           | Some (outcome, tr) \<Rightarrow>
               run [Submitted clk content img, Settled (agentMessageId clk) outcome] st)"
    by (rule handleSendMessage_as_run)
  have c: "messages (handleSendMessage_settle agentId outcome' st) =
     map (settled_update agentId outcome') (messages st)"
    by (rule settle_messages_update)
  have d: "apiKeySet st \<and> generateVideo w svc (request_of content img mime cfg) = None \<longrightarrow>
      last (messages (handleSendMessage w svc clk content img mime cfg st)) =
        newAgentMessage clk"
    by (simp add: handleSendMessage_def submit_messages)
  have e1: "apiKeySet st \<and>
    generateVideo w svc (request_of content img mime cfg) = Some (Inr url, tr1) \<longrightarrow>
      last (messages (handleSendMessage w svc clk content img mime cfg st)) =
        (newAgentMessage clk)
          \<lparr>status := Some Complete, text_msg := Some ''Here is your generated video!'',
           videoUrl := Some url\<rparr>"
  proof
    assume h: "apiKeySet st \<and>
      generateVideo w svc (request_of content img mime cfg) = Some (Inr url, tr1)"
    then have k: "apiKeySet st"
      and g: "generateVideo w svc (request_of content img mime cfg) = Some (Inr url, tr1)"
      by simp_all
    show "last (messages (handleSendMessage w svc clk content img mime cfg st)) =
        (newAgentMessage clk)
          \<lparr>status := Some Complete, text_msg := Some ''Here is your generated video!'',
           videoUrl := Some url\<rparr>"
      unfolding handleSendMessage_settled [OF k g] settle_messages submit_messages [OF k]
      by (simp add: complete_message_def newAgentMessage_def)
  qed
  have e2: "apiKeySet st \<and>
    generateVideo w svc (request_of content img mime cfg) = Some (Inl e, tr2) \<longrightarrow>
      last (messages (handleSendMessage w svc clk content img mime cfg st)) =
        (newAgentMessage clk)
          \<lparr>status := Some Error,
           error_msg := Some (or_else (message_of e)
                                ''Something went wrong while generating the video.'')\<rparr> \<and>
      or_else (message_of e) ''Something went wrong while generating the video.'' \<noteq> []"
  proof
    assume h: "apiKeySet st \<and>
      generateVideo w svc (request_of content img mime cfg) = Some (Inl e, tr2)"
    then have k: "apiKeySet st"
      and g: "generateVideo w svc (request_of content img mime cfg) = Some (Inl e, tr2)"
      by simp_all
    have "last (messages (handleSendMessage w svc clk content img mime cfg st)) =
        (newAgentMessage clk)
          \<lparr>status := Some Error,
           error_msg := Some (or_else (message_of e)
                                ''Something went wrong while generating the video.'')\<rparr>"
      unfolding handleSendMessage_settled [OF k g] settle_messages submit_messages [OF k]
      by (simp add: fail_message_def newAgentMessage_def)
    moreover have "or_else (message_of e) ''Something went wrong while generating the video.'' \<noteq> []"
      by (rule or_else_nonempty) simp
    ultimately show "last (messages (handleSendMessage w svc clk content img mime cfg st)) =
        (newAgentMessage clk)
          \<lparr>status := Some Error,
           error_msg := Some (or_else (message_of e)
                                ''Something went wrong while generating the video.'')\<rparr> \<and>
      or_else (message_of e) ''Something went wrong while generating the video.'' \<noteq> []"
      by simp
  qed
  have f: "(\<forall>a r. ev \<noteq> Settled a r) \<longrightarrow> prefix (messages st') (messages (step ev st'))"
    by (cases ev)
       (simp_all add: checkApiKey_def handleSelectKey_def handleSendMessage_submit_def
          split: option.splits sum.splits)
  have g: "i < length (messages st') \<longrightarrow>
      i < length (messages (run es st')) \<and>
      messages (run es st') ! i =
        foldl (\<lambda>m ev. event_update ev m) (messages st' ! i) es"
    using run_nth [of i st' es] by blast
  have h: "length (messages st') \<le> length (messages (run es st'))"
    and h': "list_all2 same_entry (messages st')
     (take (length (messages st')) (messages (run es st')))"
    using run_same_entries [of st' es] by simp_all
  show ?thesis
    by (intro conjI) (fact a b c d e1 e2 f g h h')+
qed

theorem agent_message_lifecycle_witness:
  "apiKeySet ready_state \<and>
   messages (handleSendMessage_submit lake_clock ''a calm lake at sunset'' None ready_state) =
     [welcome_message 0, newUserMessage lake_clock ''a calm lake at sunset'' None,
      newAgentMessage lake_clock] \<and>
   status (newAgentMessage lake_clock) = Some Generating \<and>
   last (messages (handleSendMessage lake_world fresh_service lake_clock
           ''a calm lake at sunset'' None None (config lake_request) ready_state)) =
     \<lparr>id_msg = ''1001'', role = Agent, text_msg = Some ''Here is your generated video!'',
      image_msg = None, videoUrl = Some ''blob:mp4'', status = Some Complete,
      error_msg = None, timestamp = 1000\<rparr> \<and>
   last (messages (handleSendMessage (throwing_world ''API key not valid.'') fresh_service
           lake_clock ''a calm lake at sunset'' None None (config lake_request) ready_state)) =
     \<lparr>id_msg = ''1001'', role = Agent, text_msg = None,
      image_msg = None, videoUrl = None, status = Some Error,
      error_msg = Some ''API key not valid.'', timestamp = 1000\<rparr> \<and>
   last (messages (handleSendMessage (scripted_world []) fresh_service
           lake_clock ''a calm lake at sunset'' None None (config lake_request) ready_state)) =
     newAgentMessage lake_clock \<and>
   prefix (messages ready_state) (messages (step (KeySelected True) ready_state)) \<and>
   messages (run [Settled ''1000'' (Inl NoVideoReturned), KeySelected True,
                  Settled ''1001'' (Inr ''blob:mp4'')]
              (handleSendMessage_submit lake_clock ''a calm lake at sunset'' None ready_state)) ! 2 =
     \<lparr>id_msg = ''1001'', role = Agent, text_msg = Some ''Here is your generated video!'',
      image_msg = None, videoUrl = Some ''blob:mp4'', status = Some Complete,
      error_msg = None, timestamp = 1000\<rparr> \<and>
   length (messages ready_state) \<le>
     length (messages (run [Submitted lake_clock ''a calm lake at sunset'' None,
                            Settled ''1001'' (Inr ''blob:mp4'')] ready_state))"
proof -
  let ?t = "''a calm lake at sunset''"
  let ?w2 = "throwing_world ''API key not valid.''"
  let ?e = "Rethrown InGenerateVideos (Thrown (Some ''API key not valid.''))"
  let ?st1 = "handleSendMessage_submit lake_clock ?t None ready_state"
  let ?es = "[Settled ''1000'' (Inl NoVideoReturned), KeySelected True,
              Settled ''1001'' (Inr ''blob:mp4'')]"
  let ?done = "\<lparr>id_msg = ''1001'', role = Agent, text_msg = Some ''Here is your generated video!'',
      image_msg = None, videoUrl = Some ''blob:mp4'', status = Some Complete,
      error_msg = None, timestamp = 1000\<rparr>"
  note T = agent_message_lifecycle
  note c1 = T [THEN conjunct1]
  note c4 = T [THEN conjunct2, THEN conjunct2, THEN conjunct2, THEN conjunct1]
  note c5 = T [THEN conjunct2, THEN conjunct2, THEN conjunct2, THEN conjunct2, THEN conjunct1]
  note c6 = T [THEN conjunct2, THEN conjunct2, THEN conjunct2, THEN conjunct2, THEN conjunct2,
               THEN conjunct1]
  note c7 = T [THEN conjunct2, THEN conjunct2, THEN conjunct2, THEN conjunct2, THEN conjunct2,
               THEN conjunct2, THEN conjunct1]
  note c8 = T [THEN conjunct2, THEN conjunct2, THEN conjunct2, THEN conjunct2, THEN conjunct2,
               THEN conjunct2, THEN conjunct2, THEN conjunct1]
  note c9 = T [THEN conjunct2, THEN conjunct2, THEN conjunct2, THEN conjunct2, THEN conjunct2,
               THEN conjunct2, THEN conjunct2, THEN conjunct2, THEN conjunct1]
  note k = ready_state_simps(1)
  have g1: "apiKeySet ready_state \<and>
     generateVideo lake_world fresh_service (request_of ?t None None (config lake_request)) =
     Some (Inr ''blob:mp4'',
           [GenerateVideos (generateVideos_payload lake_request),
            Wait 5000, GetVideosOperation pending_operation,
            Wait 5000, GetVideosOperation pending_operation,
            Fetch ''https://videos.example/lake?key=KEY'', CreateObjectURL ''mp4''])"
    unfolding lake_request_of using k lake_run by simp
  have g2: "apiKeySet ready_state \<and>
     generateVideo ?w2 fresh_service (request_of ?t None None (config lake_request)) =
     Some (Inl ?e, [GenerateVideos (generateVideos_payload lake_request)])"
    unfolding lake_request_of using k throwing_run by simp
  have g3: "apiKeySet ready_state \<and>
     generateVideo (scripted_world []) fresh_service
       (request_of ?t None None (config lake_request)) = None"
    unfolding lake_request_of generateVideo_None_iff
    using k stuck_never_ends by (simp add: scripted_simps)
  have ne: "\<forall>a r. KeySelected True \<noteq> Settled a r" by simp
  have agent: "newAgentMessage lake_clock =
     \<lparr>id_msg = ''1001'', role = Agent, text_msg = None, image_msg = None, videoUrl = None,
      status = Some Generating, error_msg = None, timestamp = 1000\<rparr>"
    using lake_ids by (simp add: newAgentMessage_def lake_clock_def)
  have m: "or_else (message_of ?e) ''Something went wrong while generating the video.'' =
             ''API key not valid.''"
    by (simp add: or_else_def)
  have a: "messages ?st1 =
           messages ready_state @ [newUserMessage lake_clock ?t None, newAgentMessage lake_clock]"
    using c1 [THEN mp, OF k] by blast
  have a': "messages ?st1 = [welcome_message 0, newUserMessage lake_clock ?t None,
      newAgentMessage lake_clock]"
    using a by (simp add: ready_state_simps(2))
  have b: "status (newAgentMessage lake_clock) = Some Generating"
    using c1 [THEN mp, OF k, of lake_clock] by (simp add: agent)
  have c: "last (messages (handleSendMessage lake_world fresh_service lake_clock ?t None None
               (config lake_request) ready_state)) = ?done"
    using c5 [THEN mp, OF g1, of lake_clock] by (simp add: agent)
  have f: "last (messages (handleSendMessage ?w2 fresh_service lake_clock ?t None None
               (config lake_request) ready_state)) =
     \<lparr>id_msg = ''1001'', role = Agent, text_msg = None,
      image_msg = None, videoUrl = None, status = Some Error,
      error_msg = Some ''API key not valid.'', timestamp = 1000\<rparr>"
    using c6 [THEN mp, OF g2, of lake_clock] unfolding m by (simp add: agent)
  have n: "last (messages (handleSendMessage (scripted_world []) fresh_service lake_clock ?t
               None None (config lake_request) ready_state)) = newAgentMessage lake_clock"
    by (rule c4 [THEN mp, OF g3])
  have d: "prefix (messages ready_state) (messages (step (KeySelected True) ready_state))"
    by (rule c7 [THEN mp, OF ne])
  have i: "2 < length (messages ?st1)" by (simp add: a')
  have u: "userMessageId lake_clock = ''1000''" using lake_ids by simp
  have "messages (run ?es ?st1) ! 2 =
          foldl (\<lambda>m ev. event_update ev m) (messages ?st1 ! 2) ?es"
    using c8 [THEN mp, OF i] by blast
  also have "\<dots> = ?done"
    by (simp add: a' agent settled_update_def)
  finally have h: "messages (run ?es ?st1) ! 2 = ?done" .
  have l: "length (messages ready_state) \<le>
     length (messages (run [Submitted lake_clock ?t None,
                            Settled ''1001'' (Inr ''blob:mp4'')] ready_state))"
    by (rule c9)
  show ?thesis
    by (intro conjI) (fact k a' b c f n d h l)+
qed

text \<open>
  C7 as it is stated fails where \<^verbatim>\<open>generateVideo\<close> never settles: the placeholder is
  created and stays as it is, in status \<^verbatim>\<open>generating\<close>.
\<close>

theorem placeholder_stays_generating:
  "apiKeySet ready_state \<and>
   generateVideo (scripted_world []) fresh_service
     (request_of ''a calm lake at sunset'' None None (config lake_request)) = None \<and>
   last (messages (handleSendMessage (scripted_world []) fresh_service lake_clock
           ''a calm lake at sunset'' None None (config lake_request) ready_state)) =
     newAgentMessage lake_clock \<and>
   status (newAgentMessage lake_clock) = Some Generating"
proof -
  have g: "generateVideo (scripted_world []) fresh_service
     (request_of ''a calm lake at sunset'' None None (config lake_request)) = None"
    unfolding lake_request_of generateVideo_None_iff
    using stuck_never_ends by (simp add: scripted_simps)
  show ?thesis
    using g ready_state_simps(1)
    by (simp add: handleSendMessage_def submit_messages newAgentMessage_def)
qed

text \<open>
  C8, as the code has it. When \<^verbatim>\<open>generateVideo\<close> fails, the key-ready flag is reset exactly
  when the message of the error contains \<^verbatim>\<open>Requested entity was not found\<close> or
  \<^verbatim>\<open>API key not valid\<close>, and the key prompt is shown from then on; for every other error,
  and on success, the flag is as it was.
\<close>

theorem key_flag_reset_on_key_errors:
  "apiKeySet (handleSendMessage_settle agentId (Inl e) st) =
     (apiKeySet st \<and> \<not> is_key_error (message_of e)) \<and>
   apiKeySet (handleSendMessage_settle agentId (Inr url) st) = apiKeySet st \<and>
   (is_key_error m \<longleftrightarrow>
      (\<exists>s. m = Some s \<and>
         (sublist ''Requested entity was not found'' s \<or> sublist ''API key not valid'' s))) \<and>
   (apiKeySet st \<and> generateVideo w svc (request_of content img mime cfg) = Some (Inl e, tr) \<longrightarrow>
      shows_key_prompt (handleSendMessage w svc clk content img mime cfg st) =
        is_key_error (message_of e))"
proof (intro conjI impI)
  show "apiKeySet (handleSendMessage_settle agentId (Inl e) st) =
     (apiKeySet st \<and> \<not> is_key_error (message_of e))"
    and "apiKeySet (handleSendMessage_settle agentId (Inr url) st) = apiKeySet st"
    by (simp_all add: handleSendMessage_settle_def)
  show "is_key_error m \<longleftrightarrow>
      (\<exists>s. m = Some s \<and>
         (sublist ''Requested entity was not found'' s \<or> sublist ''API key not valid'' s))"
    by (rule is_key_error_iff)
next
  assume a: "apiKeySet st \<and> generateVideo w svc (request_of content img mime cfg) = Some (Inl e, tr)"
  then have k: "apiKeySet st"
    and g: "generateVideo w svc (request_of content img mime cfg) = Some (Inl e, tr)"
    by simp_all
  show "shows_key_prompt (handleSendMessage w svc clk content img mime cfg st) =
        is_key_error (message_of e)"
    unfolding handleSendMessage_settled [OF k g] shows_key_prompt_def
    using k by (simp add: handleSendMessage_settle_def handleSendMessage_submit_def)
qed

theorem key_flag_reset_on_key_errors_witness:
  "apiKeySet ready_state \<and>
   is_key_error (Some ''Requested entity was not found.'') \<and>
   shows_key_prompt (handleSendMessage (throwing_world ''Requested entity was not found.'')
     fresh_service lake_clock ''a calm lake at sunset'' None None (config lake_request)
     ready_state) \<and>
   \<not> is_key_error (Some ''Quota exceeded.'') \<and>
   \<not> shows_key_prompt (handleSendMessage (throwing_world ''Quota exceeded.'')
     fresh_service lake_clock ''a calm lake at sunset'' None None (config lake_request)
     ready_state)"
proof -
  let ?t = "''a calm lake at sunset''"
  let ?m1 = "''Requested entity was not found.''" and ?m2 = "''Quota exceeded.''"
  note k = ready_state_simps(1)
  have g: "generateVideo (throwing_world m) fresh_service
             (request_of ?t None None (config lake_request)) =
           Some (Inl (Rethrown InGenerateVideos (Thrown (Some m))),
                 [GenerateVideos (generateVideos_payload lake_request)])" for m
    unfolding lake_request_of by (rule throwing_run)
  have e1: "is_key_error (Some ?m1)" and e2: "\<not> is_key_error (Some ?m2)"
    by (simp_all add: is_key_error_def)
  from key_flag_reset_on_key_errors
    [where st = ready_state and w = "throwing_world ?m1" and svc = fresh_service
       and content = ?t and img = None and mime = None and cfg = "config lake_request"
       and e = "Rethrown InGenerateVideos (Thrown (Some ?m1))" and clk = lake_clock] k g [of ?m1] e1
  have p1: "shows_key_prompt (handleSendMessage (throwing_world ?m1)
     fresh_service lake_clock ?t None None (config lake_request) ready_state)"
    by simp
  from key_flag_reset_on_key_errors
    [where st = ready_state and w = "throwing_world ?m2" and svc = fresh_service
       and content = ?t and img = None and mime = None and cfg = "config lake_request"
       and e = "Rethrown InGenerateVideos (Thrown (Some ?m2))" and clk = lake_clock] k g [of ?m2] e2
  have p2: "\<not> shows_key_prompt (handleSendMessage (throwing_world ?m2)
     fresh_service lake_clock ?t None None (config lake_request) ready_state)"
    by simp
  show ?thesis using k e1 e2 p1 p2 by simp
qed

text \<open>
  C8 as it is stated fails for an error whose message contains \<^verbatim>\<open>entity was not found\<close>
  without the word \<^verbatim>\<open>Requested\<close> before it: the flag stays set and no key prompt is shown.
\<close>

theorem key_flag_kept_on_entity_not_found:
  "includes_str ''The entity was not found.'' ''entity was not found'' \<and>
   generateVideo (throwing_world ''The entity was not found.'') fresh_service
     (request_of ''a calm lake at sunset'' None None (config lake_request)) =
     Some (Inl (Rethrown InGenerateVideos (Thrown (Some ''The entity was not found.''))),
           [GenerateVideos (generateVideos_payload lake_request)]) \<and>
   message_of (Rethrown InGenerateVideos (Thrown (Some ''The entity was not found.''))) =
     Some ''The entity was not found.'' \<and>
   apiKeySet ready_state \<and>
   apiKeySet (handleSendMessage (throwing_world ''The entity was not found.'')
     fresh_service lake_clock ''a calm lake at sunset'' None None (config lake_request)
     ready_state)"
proof -
  let ?t = "''a calm lake at sunset''"
  let ?m = "''The entity was not found.''"
  note k = ready_state_simps(1)
  have g: "generateVideo (throwing_world ?m) fresh_service
             (request_of ?t None None (config lake_request)) =
           Some (Inl (Rethrown InGenerateVideos (Thrown (Some ?m))),
                 [GenerateVideos (generateVideos_payload lake_request)])"
    unfolding lake_request_of by (rule throwing_run)
  have i: "includes_str ?m ''entity was not found''" by simp
  have n: "\<not> is_key_error (Some ?m)" by (simp add: is_key_error_def)
  have "apiKeySet (handleSendMessage (throwing_world ?m) fresh_service lake_clock ?t None None
          (config lake_request) ready_state)"
    unfolding handleSendMessage_settled [OF k g]
    using k n by (simp add: handleSendMessage_settle_def handleSendMessage_submit_def)
  then show ?thesis using k g i by simp
qed




text \<open>
  C10. In every state reached from the initial state by any sequence of events, and
  after every call of \<^verbatim>\<open>handleSendMessage\<close> from such a state, each message has no status
  or the status \<^verbatim>\<open>generating\<close>, \<^verbatim>\<open>complete\<close> or \<^verbatim>\<open>error\<close>; none has the status \<^verbatim>\<open>pending\<close>.
\<close>

theorem pending_is_never_stored:
  "(\<forall>m\<in>set (messages (run es (initial_state t))). known_status m \<and> status m \<noteq> Some Pending) \<and>
   (\<forall>m\<in>set (messages (handleSendMessage w svc clk content img mime cfg (run es (initial_state t)))).
      known_status m \<and> status m \<noteq> Some Pending)"
proof -
  have k: "known_status m \<Longrightarrow> status m \<noteq> Some Pending" for m
    by (auto simp: known_status_def)
  have 1: "\<forall>m\<in>set (messages (run es (initial_state t))). known_status m"
    by (rule run_known_status [OF initial_known_status])
  have 2: "\<forall>m\<in>set (messages (handleSendMessage w svc clk content img mime cfg (run es (initial_state t)))).
      known_status m"
    by (rule handleSendMessage_known_status [OF 1])
  show ?thesis using 1 2 k by blast
qed

theorem pending_is_never_stored_witness:
  "messages (run [KeySelected True, Submitted lake_clock ''a calm lake at sunset'' None,
                  Settled ''1001'' (Inl NoVideoReturned)] (initial_state 0)) =
     [welcome_message 0,
      newUserMessage lake_clock ''a calm lake at sunset'' None,
      \<lparr>id_msg = ''1001'', role = Agent, text_msg = None,
       image_msg = None, videoUrl = None, status = Some Error,
       error_msg = Some ''No video returned from the API.'', timestamp = 1000\<rparr>] \<and>
   status (welcome_message 0) = None \<and>
   status (welcome_message 0) \<noteq> Some Pending \<and>
   status (last (messages (run [KeySelected True,
       Submitted lake_clock ''a calm lake at sunset'' None,
       Settled ''1001'' (Inl NoVideoReturned)] (initial_state 0)))) \<noteq> Some Pending"
proof -
  let ?es = "[KeySelected True, Submitted lake_clock ''a calm lake at sunset'' None,
                  Settled ''1001'' (Inl NoVideoReturned)]"
  let ?agent = "\<lparr>id_msg = ''1001'', role = Agent, text_msg = None,
       image_msg = None, videoUrl = None, status = Some Error,
       error_msg = Some ''No video returned from the API.'', timestamp = 1000\<rparr>"
  have r: "messages (run ?es (initial_state 0)) =
     [welcome_message 0, newUserMessage lake_clock ''a calm lake at sunset'' None, ?agent]"
    using lake_ids
    by (simp add: initial_state_def handleSelectKey_def handleSendMessage_submit_def
          settle_messages fail_message_def newUserMessage_def newAgentMessage_def welcome_id
          lake_clock_def or_else_def)
  have "welcome_message 0 \<in> set (messages (run ?es (initial_state 0)))"
    and "?agent \<in> set (messages (run ?es (initial_state 0)))"
    unfolding r by simp_all
  with pending_is_never_stored [of ?es 0]
  have "status (welcome_message 0) \<noteq> Some Pending" and "status ?agent \<noteq> Some Pending"
    by blast+
  then show ?thesis using r by (simp add: welcome_message_def)
qed

end
